theory Spec2Isabelle
  imports Main "HOL-Library.Sublist"
begin

section \<open>Errors, panics and strings\<close>

text \<open>
  The package's sentinel errors (\<^verbatim>\<open>var ( ErrWaitTimeout = errors.New(...) ... )\<close>) are
  constructors; \<^verbatim>\<open>err == ErrNotFound\<close> is equality of constructors. \<open>Errorf\<close> is an error
  built by \<^verbatim>\<open>fmt.Errorf\<close>, \<open>Wrapf\<close> one built by \<^verbatim>\<open>errors.Wrapf(cause, message)\<close>, and
  \<open>External\<close> an error handed over by a collaborator outside the package (the HTTP client,
  \<^verbatim>\<open>os/exec\<close>, the remote WebDriver client), known by its text.
\<close>

datatype error =
    ErrWaitTimeout
  | ErrNeedRetry
  | ErrUnknown
  | ErrNotFound
  | ErrInvaidSelectorPath
  | Errorf string
  | Wrapf error string
  | External string

text \<open>\<^verbatim>\<open>err.Error()\<close>; a wrapped error prints its message, a colon, and its cause.\<close>

fun Error :: "error \<Rightarrow> string" where
  "Error ErrWaitTimeout = ''wait timed out''"
| "Error ErrNeedRetry = ''need retry''"
| "Error ErrUnknown = ''unknown error''"
| "Error ErrNotFound = ''element not found''"
| "Error ErrInvaidSelectorPath = ''invalid selector path''"
| "Error (Errorf msg) = msg"
| "Error (Wrapf cause msg) = msg @ '': '' @ Error cause"
| "Error (External msg) = msg"

text \<open>\<^verbatim>\<open>errors.Cause\<close>: the innermost error of a chain of wrappers.\<close>

fun Cause :: "error \<Rightarrow> error" where
  "Cause (Wrapf cause msg) = Cause cause"
| "Cause e = e"

text \<open>
  A run-time panic of the Go program: an index expression out of range (the index and the
  length of the slice), or a nil pointer dereference.
\<close>

datatype panic = IndexOutOfRange int nat | NilDereference

text \<open>\<^verbatim>\<open>strings.Contains\<close>.\<close>

fun Contains :: "string \<Rightarrow> string \<Rightarrow> bool" where
  "Contains [] substr = (substr = [])"
| "Contains (c # cs) substr = (prefix substr (c # cs) \<or> Contains cs substr)"

text \<open>\<^verbatim>\<open>strconv.Itoa\<close> and the verbs \<^verbatim>\<open>%d\<close>, \<^verbatim>\<open>%v\<close> at an \<^verbatim>\<open>int\<close>: decimal digits, with a sign.\<close>

fun digits :: "nat \<Rightarrow> string" where
  "digits n = (if n < 10 then [''0123456789'' ! n]
               else digits (n div 10) @ [''0123456789'' ! (n mod 10)])"

declare digits.simps [simp del]

definition Itoa :: "int \<Rightarrow> string" where
  "Itoa i = (if i < 0 then CHR ''-'' # digits (nat (- i)) else digits (nat i))"

section \<open>The supervised process and the registry\<close>

text \<open>
  \<^verbatim>\<open>exec.Cmd\<close> as far as the package uses it: the executable and its arguments, whether its
  output streams are wired to the caller's (debug mode), and \<^verbatim>\<open>cmd.Process\<close>, which is nil
  until \<^verbatim>\<open>Start\<close> has succeeded.
\<close>

record Cmd =
  Path :: string
  Args :: "string list"
  Wired :: bool
  Process :: "nat option"

text \<open>\<^verbatim>\<open>type driver struct { port; addr; cmd; shutdownURLPath }\<close> (fields prefixed \<open>d_\<close>).\<close>

record driver =
  d_port :: int
  d_addr :: string
  d_cmd :: Cmd
  shutdownURLPath :: string

text \<open>\<^verbatim>\<open>type server struct { d; port; ownDriver }\<close> (fields prefixed \<open>srv_\<close>).\<close>

record server =
  srv_d :: driver
  srv_port :: int
  ownDriver :: bool

text \<open>A \<^verbatim>\<open>*Session\<close> in the registry is a pointer; pointers are compared by identity.\<close>

type_synonym sptr = nat

text \<open>
  What the program does to the outside world, in the order it does it: printed lines,
  HTTP requests (by URL), the process scan (by driver path), the child started, the wait
  for the child's exit, a kill, a sleep (nanoseconds), the remote close of a session, the
  installed signal handler.
\<close>

datatype event =
    Printf string
  | HttpGet string
  | Pgrep string
  | CmdStart string "string list"
  | CmdWait
  | ProcessKill
  | Sleep int
  | SessionQuit sptr
  | SignalNotify

text \<open>
  What the outside world answers. \<open>CHROME_DRIVER\<close> is the value of
  \<^verbatim>\<open>strings.TrimSpace(os.Getenv("CHROME_DRIVER"))\<close>; \<open>pgrep\<close> maps the driver path to the
  trimmed combined output of \<^verbatim>\<open>pgrep <base name>\<close>; \<open>http_get k url\<close> is the outcome of the
  \<open>k\<close>-th \<^verbatim>\<open>http.Get\<close> of the run (counted from 0): a transport error or the status code of
  the response; \<open>cmd_start\<close> is the outcome of \<^verbatim>\<open>cmd.Start()\<close> (an error or the process id),
  \<open>cmd_wait\<close> of \<^verbatim>\<open>cmd.Wait()\<close>, \<open>process_kill\<close> of \<^verbatim>\<open>cmd.Process.Kill()\<close>; \<open>session_quit\<close>
  and \<open>session_id\<close> are a session's \<^verbatim>\<open>Quit()\<close> and \<^verbatim>\<open>SessionID()\<close>.
\<close>

record env =
  CHROME_DRIVER :: string
  pgrep :: "string \<Rightarrow> string"
  http_get :: "nat \<Rightarrow> string \<Rightarrow> error + int"
  cmd_start :: "error + nat"
  cmd_wait :: "error option"
  process_kill :: "error option"
  session_quit :: "sptr \<Rightarrow> error option"
  session_id :: "sptr \<Rightarrow> string"

text \<open>
  The package-level variables \<^verbatim>\<open>inst\<close>, \<^verbatim>\<open>sessions\<close>, \<^verbatim>\<open>debugFlag\<close>, and the trace of
  events so far. Every function below that touches \<^verbatim>\<open>inst\<close> or \<^verbatim>\<open>sessions\<close> does so while
  holding the one mutex \<^verbatim>\<open>smu\<close>, so calls are modelled as atomic steps on this state.
\<close>

record world =
  inst :: "server option"
  sessions :: "sptr list"
  debugFlag :: bool
  trace :: "event list"

definition is_HttpGet :: "event \<Rightarrow> bool" where
  "is_HttpGet ev = (case ev of HttpGet url \<Rightarrow> True | _ \<Rightarrow> False)"

text \<open>The number of HTTP requests made so far: the index of the next one.\<close>

definition nget :: "event list \<Rightarrow> nat" where
  "nget tr = length (filter is_HttpGet tr)"

text \<open>The remote close of a session; the events by which \<^verbatim>\<open>driver.Stop\<close> acts on the process.\<close>

definition is_SessionQuit :: "event \<Rightarrow> bool" where
  "is_SessionQuit ev = (case ev of SessionQuit s \<Rightarrow> True | _ \<Rightarrow> False)"

definition is_stop :: "event \<Rightarrow> bool" where
  "is_stop ev = (case ev of HttpGet url \<Rightarrow> True | ProcessKill \<Rightarrow> True | CmdWait \<Rightarrow> True | _ \<Rightarrow> False)"

definition is_spawn :: "event \<Rightarrow> bool" where
  "is_spawn ev = (case ev of CmdStart p args \<Rightarrow> True | _ \<Rightarrow> False)"

subsection \<open>\<^verbatim>\<open>Session.Close\<close>\<close>

text \<open>
  \<^verbatim>\<open>for ; idx < len(sessions); idx++ { if s == sessions[idx] { break } }\<close>:
  the value of \<^verbatim>\<open>idx\<close> after the loop, started at \<open>idx\<close>.
\<close>

function Close_search :: "sptr \<Rightarrow> sptr list \<Rightarrow> nat \<Rightarrow> nat" where
  "Close_search s ss idx =
     (if idx < length ss
      then (if s = ss ! idx then idx else Close_search s ss (idx + 1))
      else idx)"
  by pat_completeness auto
termination
  by (relation "measure (\<lambda>(s, ss, idx). length ss - idx)") auto

declare Close_search.simps [simp del]

text \<open>
  \<^verbatim>\<open>sessions[idx] = sessions[len(sessions)-1]; sessions = sessions[:len(sessions)-1]\<close>.
  The right-hand side is evaluated first: on an empty slice it reads index \<open>-1\<close>. The store
  to index \<open>idx\<close> is next: it is out of range when the search fell off the end. Either is a
  panic, raised before \<^verbatim>\<open>smu.Unlock()\<close> and before \<^verbatim>\<open>s.Quit()\<close>; the state is as it was.
\<close>

definition Close :: "env \<Rightarrow> sptr \<Rightarrow> world \<Rightarrow> (panic + error option) \<times> world" where
  "Close e s w =
     (let ss = sessions w;
          idx = Close_search s ss 0
      in if length ss = 0 then (Inl (IndexOutOfRange (- 1) 0), w)
         else if length ss \<le> idx then (Inl (IndexOutOfRange (int idx) (length ss)), w)
         else (Inr (session_quit e s),
               w\<lparr>sessions := take (length ss - 1) (ss[idx := ss ! (length ss - 1)]),
                 trace := trace w @ [SessionQuit s]\<rparr>))"

subsection \<open>\<^verbatim>\<open>driver.Stop\<close>\<close>

text \<open>
  \<^verbatim>\<open>if err := d.cmd.Wait(); err != nil && err.Error() != "signal: killed" { return err }\<close>
  and \<^verbatim>\<open>return nil\<close>.
\<close>

definition Stop_wait :: "env \<Rightarrow> event list \<Rightarrow> (panic + error option) \<times> event list" where
  "Stop_wait e tr =
     (case cmd_wait e of
        Some err \<Rightarrow>
          if Error err \<noteq> ''signal: killed'' then (Inr (Some err), tr @ [CmdWait])
          else (Inr None, tr @ [CmdWait])
      | None \<Rightarrow> (Inr None, tr @ [CmdWait]))"

text \<open>
  With an empty shutdown path the process is killed through \<^verbatim>\<open>d.cmd.Process\<close> (a nil
  pointer when the command was never started); otherwise the shutdown URL is requested.
  An error of either step is returned at once; after a success the child is waited for.
\<close>

definition Stop :: "env \<Rightarrow> driver \<Rightarrow> event list \<Rightarrow> (panic + error option) \<times> event list" where
  "Stop e dr tr =
     (if shutdownURLPath dr = []
      then (case Process (d_cmd dr) of
              None \<Rightarrow> (Inl NilDereference, tr)
            | Some pid \<Rightarrow>
                (case process_kill e of
                   Some err \<Rightarrow> (Inr (Some err), tr @ [ProcessKill])
                 | None \<Rightarrow> Stop_wait e (tr @ [ProcessKill])))
      else (case http_get e (nget tr) (d_addr dr @ shutdownURLPath dr) of
              Inl err \<Rightarrow> (Inr (Some err), tr @ [HttpGet (d_addr dr @ shutdownURLPath dr)])
            | Inr code \<Rightarrow> Stop_wait e (tr @ [HttpGet (d_addr dr @ shutdownURLPath dr)])))"

subsection \<open>\<^verbatim>\<open>newChromeDriver\<close>\<close>

text \<open>
  The closure \<^verbatim>\<open>status\<close>: one \<^verbatim>\<open>GET addr + "/status"\<close>. Forbidden, BadRequest and OK all count
  as OK; any other response is its own code; a transport error is InternalServerError.
\<close>

definition status :: "env \<Rightarrow> string \<Rightarrow> event list \<Rightarrow> int \<times> event list" where
  "status e addr tr =
     (case http_get e (nget tr) (addr @ ''/status'') of
        Inr code \<Rightarrow>
          (if code = 403 \<or> code = 400 \<or> code = 200 then 200 else code,
           tr @ [HttpGet (addr @ ''/status'')])
      | Inl err \<Rightarrow> (500, tr @ [HttpGet (addr @ ''/status'')]))"

text \<open>
  \<^verbatim>\<open>for i := 0; i < 30; i++ { time.Sleep(time.Second); if status(d.addr) == http.StatusOK
  { return d, true, nil } }\<close> and the error after the loop, from iteration \<open>i\<close> on.
\<close>

function newChromeDriver_poll ::
  "env \<Rightarrow> driver \<Rightarrow> int \<Rightarrow> nat \<Rightarrow> event list \<Rightarrow> (error + driver \<times> bool) \<times> event list" where
  "newChromeDriver_poll e dr port i tr =
     (if i < 30
      then (case status e (d_addr dr) (tr @ [Sleep 1000000000]) of
              (code, tr') \<Rightarrow>
                if code = 200 then (Inr (dr, True), tr')
                else newChromeDriver_poll e dr port (i + 1) tr')
      else (Inl (Errorf (''failed to start chrome driver on port '' @ Itoa port)), tr))"
  by pat_completeness auto
termination
  by (relation "measure (\<lambda>(e, dr, port, i, tr). 30 - i)") auto

declare newChromeDriver_poll.simps [simp del]

text \<open>The driver value built at the top of \<^verbatim>\<open>newChromeDriver\<close>.\<close>

definition new_driver :: "string \<Rightarrow> int \<Rightarrow> bool \<Rightarrow> driver" where
  "new_driver path port dbg =
     \<lparr>d_port = port,
      d_addr = ''http://localhost:'' @ Itoa port @ ''/wd/hub'',
      d_cmd = \<lparr>Path = path,
               Args = [''--port='' @ Itoa port, ''--url-base=wd/hub'', ''--verbose''],
               Wired = dbg,
               Process = None\<rparr>,
      shutdownURLPath = ''/shutdown''\<rparr>"

definition newChromeDriver ::
  "env \<Rightarrow> string \<Rightarrow> int \<Rightarrow> world \<Rightarrow> (error + driver \<times> bool) \<times> world" where
  "newChromeDriver e path port w =
     (let dr = new_driver path port (debugFlag w)
      in case status e (d_addr dr) (trace w) of
           (code, tr1) \<Rightarrow>
             if code = 200 then (Inr (dr, False), w\<lparr>trace := tr1\<rparr>)
             else
               (case cmd_start e of
                  Inl err \<Rightarrow>
                    (Inl err,
                     w\<lparr>trace := tr1 @ [Printf (''*** [webdriver] starting chromedriver ***'' @ [CHR 0x0A]),
                                       CmdStart (Path (d_cmd dr)) (Args (d_cmd dr))]\<rparr>)
                | Inr pid \<Rightarrow>
                    (case newChromeDriver_poll e (dr\<lparr>d_cmd := (d_cmd dr)\<lparr>Process := Some pid\<rparr>\<rparr>) port 0
                            (tr1 @ [Printf (''*** [webdriver] starting chromedriver ***'' @ [CHR 0x0A]),
                                    CmdStart (Path (d_cmd dr)) (Args (d_cmd dr))]) of
                       (r, tr2) \<Rightarrow> (r, w\<lparr>trace := tr2\<rparr>))))"

subsection \<open>\<^verbatim>\<open>Init\<close> and \<^verbatim>\<open>Shutdown\<close>\<close>

text \<open>\<^verbatim>\<open>strings.Replace(pidStr, "\n", ", ", -1)\<close>.\<close>

definition commas :: "string \<Rightarrow> string" where
  "commas pidStr = concat (map (\<lambda>c. if c = CHR 0x0A then '', '' else [c]) pidStr)"

text \<open>
  The two argument checks and the process scan come before the lock is taken and before
  \<^verbatim>\<open>inst\<close> is looked at. The goroutine that waits for SIGINT/SIGTERM is recorded as
  \<open>SignalNotify\<close>; what it does when the signal arrives is not part of this function's run.
\<close>

definition Init :: "env \<Rightarrow> int \<Rightarrow> bool \<Rightarrow> world \<Rightarrow> error option \<times> world" where
  "Init e port dbg w =
     (if CHROME_DRIVER e = [] then (Some (Errorf ''env CHROME_DRIVER is missing''), w)
      else if port < 1000 then (Some (Errorf (''driver port < 1000: '' @ Itoa port)), w)
      else
        (let pidStr = pgrep e (CHROME_DRIVER e);
             w1 = w\<lparr>trace := trace w @ [Pgrep (CHROME_DRIVER e)] @
                    (if length pidStr > 0
                     then [Printf (''*** [webdriver] detected chrome driver running process (PIDs = ''
                                   @ commas pidStr @ '') ***'' @ [CHR 0x0A])]
                     else [])\<rparr>
         in if inst w1 \<noteq> None then (None, w1)
            else
              (case newChromeDriver e (CHROME_DRIVER e) port (w1\<lparr>debugFlag := dbg\<rparr>) of
                 (Inl err, w2) \<Rightarrow> (Some err, w2)
               | (Inr (dr, isOwned), w2) \<Rightarrow>
                   (None, w2\<lparr>inst := Some \<lparr>srv_d = dr, srv_port = port, ownDriver = isOwned\<rparr>,
                             trace := trace w2 @ [SignalNotify]\<rparr>))))"

text \<open>
  \<^verbatim>\<open>for _, s := range sessions { fmt.Printf(..., s.SessionID()); s.Quit() }\<close>: the result of
  \<^verbatim>\<open>Quit\<close> is dropped.
\<close>

fun Shutdown_sessions :: "env \<Rightarrow> sptr list \<Rightarrow> event list \<Rightarrow> event list" where
  "Shutdown_sessions e [] tr = tr"
| "Shutdown_sessions e (s # ss) tr =
     Shutdown_sessions e ss
       (tr @ [Printf (''*** [webdriver] closing session '' @ session_id e s @ '' ***'' @ [CHR 0x0A]),
              SessionQuit s])"

text \<open>
  \<^verbatim>\<open>inst = nil\<close> is inside the branch \<^verbatim>\<open>inst != nil && inst.ownDriver\<close>, after \<^verbatim>\<open>inst.d.Stop()\<close>,
  whose returned error is dropped. A panic of \<^verbatim>\<open>Stop\<close> leaves through the deferred unlock.
\<close>

definition Shutdown :: "env \<Rightarrow> world \<Rightarrow> panic option \<times> world" where
  "Shutdown e w =
     (let tr1 = Shutdown_sessions e (sessions w) (trace w)
      in case inst w of
           Some sv \<Rightarrow>
             if ownDriver sv
             then (case Stop e (srv_d sv)
                          (tr1 @ [Printf (''*** [webdriver] stopping webdriver ***'' @ [CHR 0x0A])]) of
                     (Inl p, tr2) \<Rightarrow> (Some p, w\<lparr>sessions := [], trace := tr2\<rparr>)
                   | (Inr r, tr2) \<Rightarrow>
                       (None, w\<lparr>inst := None, sessions := [],
                                trace := tr2 @ [Printf (''*** [webdriver] shutdown complete ***''
                                                        @ [CHR 0x0A, CHR 0x0A])]\<rparr>))
             else (None, w\<lparr>sessions := [],
                           trace := tr1 @
                             [Printf (''*** [webdriver] leave alone webdriver (not owned) ***'' @ [CHR 0x0A]),
                              Printf (''*** [webdriver] shutdown complete ***'' @ [CHR 0x0A, CHR 0x0A])]\<rparr>)
         | None \<Rightarrow>
             (None, w\<lparr>sessions := [],
                      trace := tr1 @
                        [Printf (''*** [webdriver] leave alone webdriver (not owned) ***'' @ [CHR 0x0A]),
                         Printf (''*** [webdriver] shutdown complete ***'' @ [CHR 0x0A, CHR 0x0A])]\<rparr>))"

section \<open>The poll engine\<close>

text \<open>
  \<^verbatim>\<open>waitOn\<close> creates a ticker of one second and a timer of \<^verbatim>\<open>timeout\<close>, then loops over a
  \<^verbatim>\<open>select\<close> with two cases: a receive from the ticker's channel, which calls the probe, and
  a receive from the timer's channel, which returns the wrapped \<^verbatim>\<open>ErrWaitTimeout\<close>.

  Time is counted in nanoseconds (the unit of \<^verbatim>\<open>time.Duration\<close>) from the creation of the
  ticker, the first statement of \<^verbatim>\<open>waitOn\<close>. The ticker sends at every multiple of the
  period into a channel that holds one value and drops a tick when the channel is full.
  The timer is created by the next statement, \<open>gap\<close> nanoseconds after the ticker; it
  sends once, \<^verbatim>\<open>timeout\<close> after its own creation, or at once when \<^verbatim>\<open>timeout\<close> is not
  positive. The loop is entered when the timer has been created. What the program does
  not decide is given by the run-time system: the time between the two creations
  (\<open>gap\<close>), how long the \<open>k\<close>-th call of the probe takes (\<open>cost\<close>), which case \<^verbatim>\<open>select\<close>
  takes when both channels can be received from (\<open>races\<close>, one entry per such race; Go
  chooses at random, and once the entries are used up the timer's case is taken, so the
  timer is not passed over for ever), and the text of \<^verbatim>\<open>string(debug.Stack())\<close> as
  \<^verbatim>\<open>errors.Wrapf\<close> formats it (\<open>stack\<close>).
\<close>

datatype sel = Tick | Deadline

record runtime =
  gap :: nat
  cost :: "nat \<Rightarrow> nat"
  races :: "sel list"
  stack :: string

text \<open>\<^verbatim>\<open>1000 * time.Millisecond\<close>.\<close>

definition period :: nat where
  "period = 1000000000"

text \<open>
  The ticker's channel holds a value at time \<open>now\<close> iff a multiple of the period lies
  after the time the channel was last emptied and not after \<open>now\<close>.
\<close>

definition tick_ready :: "nat \<Rightarrow> nat \<Rightarrow> bool" where
  "tick_ready emptied now = (emptied div period < now div period)"

definition race :: "sel list \<Rightarrow> nat \<Rightarrow> sel \<times> nat \<times> sel list" where
  "race rs t = (case rs of [] \<Rightarrow> (Deadline, t, []) | r # rs' \<Rightarrow> (r, t, rs'))"

text \<open>
  One \<^verbatim>\<open>select\<close>, entered at time \<open>now\<close> with the timer due at \<open>D\<close>: the case taken, the
  time at which it is taken, and the races left. If a channel is ready the receive happens
  at once; if none is, the goroutine sleeps until the next tick or the timer, whichever
  comes first.
\<close>

definition select :: "nat \<Rightarrow> nat \<Rightarrow> nat \<Rightarrow> sel list \<Rightarrow> sel \<times> nat \<times> sel list" where
  "select D emptied now rs =
     (if tick_ready emptied now
      then (if D \<le> now then race rs now else (Tick, now, rs))
      else if D \<le> now then (Deadline, now, rs)
      else if (now div period + 1) * period < D then (Tick, (now div period + 1) * period, rs)
      else if D < (now div period + 1) * period then (Deadline, D, rs)
      else race rs D)"

text \<open>
  The loop of \<^verbatim>\<open>waitOn\<close>. \<open>fn\<close> is the probe, a closure that acts on a state \<open>'s\<close> (the
  remote side and the variables it captures); \<open>n\<close> counts its calls; \<open>h\<close> is the list of
  \<^verbatim>\<open>select\<close> cases taken so far. A probe that returns an error ends the loop with that
  error whatever \<^verbatim>\<open>done\<close> is; otherwise \<^verbatim>\<open>done\<close> ends it with nil. The loop has no other
  exit, so the \<^verbatim>\<open>return ErrUnknown\<close> after it is never reached. The result is the returned
  error, the state, and the cases taken.
\<close>

function waitOn_loop ::
  "('s \<Rightarrow> (bool \<times> error option) \<times> 's) \<Rightarrow> (nat \<Rightarrow> nat) \<Rightarrow> string \<Rightarrow> nat \<Rightarrow>
   nat \<Rightarrow> nat \<Rightarrow> nat \<Rightarrow> sel list \<Rightarrow> 's \<Rightarrow> sel list \<Rightarrow> error option \<times> 's \<times> sel list" where
  "waitOn_loop fn cst stk D emptied now n rs s h =
     (case select D emptied now rs of
        (Deadline, t, rs') \<Rightarrow> (Some (Wrapf ErrWaitTimeout stk), s, h @ [Deadline])
      | (Tick, t, rs') \<Rightarrow>
          (case fn s of
             ((done, Some err), s') \<Rightarrow> (Some err, s', h @ [Tick])
           | ((done, None), s') \<Rightarrow>
               if done then (None, s', h @ [Tick])
               else waitOn_loop fn cst stk D t (t + cst n) (n + 1) rs' s' (h @ [Tick])))"
  by pat_completeness auto
termination
proof (relation "measures
      [\<lambda>(fn, cst, stk, D, emptied, now, n, rs, s, h). D - now,
       \<lambda>(fn, cst, stk, D, emptied, now, n, rs, s, h). length rs,
       \<lambda>(fn, cst, stk, D, emptied, now, n, rs, s, h). if tick_ready emptied now then 1 else 0]",
    goal_cases)
  case 1
  show ?case by simp
next
  case (2 fn cst stk D emptied now n rs s h x y t rs')
  then have sl: "select D emptied now rs = (Tick, t, rs')" by simp
  have "D - (t + cst n) < D - now \<or>
        D - (t + cst n) = D - now \<and> length rs' < length rs \<or>
        D - (t + cst n) = D - now \<and> length rs' = length rs \<and>
          tick_ready emptied now \<and> \<not> tick_ready t (t + cst n)"
  proof -
    have nt: "now < (now div period + 1) * period"
      using dividend_less_div_times [of period now] by (simp add: period_def)
    show ?thesis
    proof (cases "tick_ready emptied now")
      case True
      show ?thesis
      proof (cases "D \<le> now")
        case d: True
        with True sl have "race rs now = (Tick, t, rs')" by (simp add: select_def)
        then have "t = now" "length rs' < length rs"
          by (auto simp: race_def split: list.splits)
        with d show ?thesis by simp
      next
        case d: False
        with True sl have t: "t = now" "rs' = rs" by (simp_all add: select_def)
        show ?thesis
        proof (cases "cst n = 0")
          case True
          with t \<open>tick_ready emptied now\<close> show ?thesis by (simp add: tick_ready_def)
        next
          case False
          with t d show ?thesis by (intro disjI1) linarith
        qed
      qed
    next
      case False
      show ?thesis
      proof (cases "D \<le> now")
        case d: True
        with False sl show ?thesis by (simp add: select_def)
      next
        case d: False
        show ?thesis
        proof (cases "(now div period + 1) * period < D")
          case True
          with False d sl have "t = (now div period + 1) * period" by (simp add: select_def)
          with nt have "now < t" by simp
          with d show ?thesis by (intro disjI1) linarith
        next
          case lt: False
          show ?thesis
          proof (cases "D < (now div period + 1) * period")
            case True
            with False d lt sl show ?thesis by (simp add: select_def)
          next
            case False
            with \<open>\<not> tick_ready emptied now\<close> d lt sl have "race rs D = (Tick, t, rs')"
              by (simp add: select_def)
            then have "t = D" by (auto simp: race_def split: list.splits)
            with d show ?thesis by (intro disjI1) linarith
          qed
        qed
      qed
    qed
  qed
  then show ?case by auto
qed

declare waitOn_loop.simps [simp del]

text \<open>
  \<^verbatim>\<open>ticker := time.NewTicker(1000 * time.Millisecond); to := time.NewTimer(timeout)\<close> and
  the loop: the timer is due at \<open>gap + timeout\<close>, the ticker's channel was never received
  from, and the first \<^verbatim>\<open>select\<close> is entered at time \<open>gap\<close>.
\<close>

definition waitOn ::
  "('s \<Rightarrow> (bool \<times> error option) \<times> 's) \<Rightarrow> int \<Rightarrow> runtime \<Rightarrow> 's \<Rightarrow> error option \<times> 's \<times> sel list" where
  "waitOn fn timeout rt s =
     waitOn_loop fn (cost rt) (stack rt) (gap rt + nat timeout) 0 (gap rt) 0 (races rt) s []"

text \<open>
  Calling a closure \<open>k\<close> times in a row: the list of what the calls returned, and the state
  after the last. Used to say what a wait did.
\<close>

fun calls :: "('s \<Rightarrow> 'r \<times> 's) \<Rightarrow> nat \<Rightarrow> 's \<Rightarrow> 'r list \<times> 's" where
  "calls fn 0 s = ([], s)"
| "calls fn (Suc k) s =
     (case fn s of (r, s') \<Rightarrow> (case calls fn k s' of (rs, s'') \<Rightarrow> (r # rs, s'')))"

section \<open>Sessions and elements\<close>

text \<open>
  The remote client (\<^verbatim>\<open>WebDriver\<close>, embedded in \<^verbatim>\<open>Session\<close>) is an interface of the package
  whose implementation is outside the files at hand; the operations used here are taken
  as parameters, acting on a state \<open>'w\<close> of the remote side. \<^verbatim>\<open>FindElement\<close> returns an
  element handle (possibly nil) and an error (possibly nil); \<^verbatim>\<open>Status\<close> returns an error or
  a status, of which only \<^verbatim>\<open>Ready\<close> is read.
\<close>

type_synonym welem = nat

datatype strategy = ByXPATH

record 'w WebDriver =
  FindElement :: "strategy \<Rightarrow> string \<Rightarrow> 'w \<Rightarrow> (welem option \<times> error option) \<times> 'w"
  Status :: "'w \<Rightarrow> (error + bool) \<times> 'w"

text \<open>\<^verbatim>\<open>type Session struct { WebDriver; timeout time.Duration }\<close>.\<close>

record 'w Session =
  wd :: "'w WebDriver"
  timeout :: int

text \<open>\<^verbatim>\<open>type Element struct { s *Session; WebElement }\<close> (fields prefixed \<open>el_\<close>).\<close>

record 'w Element =
  el_s :: "'w Session"
  el_elem :: welem

text \<open>\<^verbatim>\<open>err != nil && strings.Contains(err.Error(), "no such element")\<close>.\<close>

definition notFound :: "error option \<Rightarrow> bool" where
  "notFound err = (case err of None \<Rightarrow> False | Some e \<Rightarrow> Contains (Error e) ''no such element'')"

definition Session_find ::
  "'w Session \<Rightarrow> string \<Rightarrow> 'w \<Rightarrow> ('w Element option \<times> error option) \<times> 'w" where
  "Session_find s xpath w =
     (case FindElement (wd s) ByXPATH xpath w of
        ((elem, err), w') \<Rightarrow>
          if notFound err then ((None, Some ErrNotFound), w')
          else (case err of
                  Some e \<Rightarrow> ((None, Some e), w')
                | None \<Rightarrow>
                    (case elem of
                       None \<Rightarrow> ((None, Some ErrNotFound), w')
                     | Some el \<Rightarrow> ((Some \<lparr>el_s = s, el_elem = el\<rparr>, None), w'))))"

text \<open>
  The probe of \<^verbatim>\<open>GetDOMTimeout\<close>. Its state is the captured variable \<^verbatim>\<open>ret\<close> and the remote
  side.
\<close>

definition GetDOM_probe ::
  "'w Session \<Rightarrow> string \<Rightarrow> 'w Element option \<times> 'w \<Rightarrow>
   (bool \<times> error option) \<times> ('w Element option \<times> 'w)" where
  "GetDOM_probe s xpath = (\<lambda>(ret, w).
     case Session_find s xpath w of
       ((elem, err), w') \<Rightarrow>
         if err = Some ErrNotFound then ((False, None), (ret, w'))
         else (case err of
                 Some e \<Rightarrow> ((True, Some e), (ret, w'))
               | None \<Rightarrow>
                   (case elem of
                      None \<Rightarrow> ((False, None), (ret, w'))
                    | Some el \<Rightarrow> ((True, None), (Some el, w')))))"

text \<open>
  \<^verbatim>\<open>GetDOMTimeout\<close> returns \<^verbatim>\<open>ret, err\<close>; the model also returns the remote side's state and
  the \<^verbatim>\<open>select\<close> cases taken.
\<close>

definition GetDOMTimeout ::
  "'w Session \<Rightarrow> string \<Rightarrow> int \<Rightarrow> runtime \<Rightarrow> 'w \<Rightarrow>
   ('w Element option \<times> error option) \<times> 'w \<times> sel list" where
  "GetDOMTimeout s xpath to rt w =
     (case waitOn (GetDOM_probe s xpath) to rt (None, w) of
        (err, (ret, w'), h) \<Rightarrow> ((ret, err), w', h))"

definition GetDOM ::
  "'w Session \<Rightarrow> string \<Rightarrow> runtime \<Rightarrow> 'w \<Rightarrow> ('w Element option \<times> error option) \<times> 'w \<times> sel list" where
  "GetDOM s xpath rt w = GetDOMTimeout s xpath (timeout s) rt w"

text \<open>
  The loop \<^verbatim>\<open>for idx, xpath := range xpaths\<close> inside the probe of \<^verbatim>\<open>Session.Wait\<close>, from
  index \<open>idx\<close> on: the value assigned to \<^verbatim>\<open>selected\<close> (if any) and what the probe returns.
  A \<^verbatim>\<open>find\<close> that returns neither an element nor an error falls through to the next path.
\<close>

fun Wait_paths ::
  "'w Session \<Rightarrow> string list \<Rightarrow> nat \<Rightarrow> 'w \<Rightarrow> (int option \<times> bool \<times> error option) \<times> 'w" where
  "Wait_paths s [] idx w = ((None, False, None), w)"
| "Wait_paths s (xpath # xpaths) idx w =
     (case Session_find s xpath w of
        ((result, err), w') \<Rightarrow>
          if err = Some ErrNotFound then Wait_paths s xpaths (idx + 1) w'
          else (case err of
                  Some e \<Rightarrow> ((None, True, Some e), w')
                | None \<Rightarrow>
                    (case result of
                       Some el \<Rightarrow> ((Some (int idx), True, None), w')
                     | None \<Rightarrow> Wait_paths s xpaths (idx + 1) w')))"

text \<open>The probe of \<^verbatim>\<open>Session.Wait\<close>; its state is \<^verbatim>\<open>selected\<close> and the remote side.\<close>

definition Wait_probe ::
  "'w Session \<Rightarrow> string list \<Rightarrow> int \<times> 'w \<Rightarrow> (bool \<times> error option) \<times> (int \<times> 'w)" where
  "Wait_probe s xpaths = (\<lambda>(selected, w).
     case Status (wd s) w of
       (Inl err, w') \<Rightarrow> ((True, Some err), (selected, w'))
     | (Inr ready, w') \<Rightarrow>
         if \<not> ready then ((False, None), (selected, w'))
         else (case Wait_paths s xpaths 0 w' of
                 ((Some idx, r), w'') \<Rightarrow> (r, (idx, w''))
               | ((None, r), w'') \<Rightarrow> (r, (selected, w''))))"

definition Session_Wait ::
  "'w Session \<Rightarrow> string list \<Rightarrow> runtime \<Rightarrow> 'w \<Rightarrow> (int \<times> error option) \<times> 'w \<times> sel list" where
  "Session_Wait s xpaths rt w =
     (case waitOn (Wait_probe s xpaths) (timeout s) rt (- 1, w) of
        (err, (selected, w'), h) \<Rightarrow> ((selected, err), w', h))"

text \<open>
  What \<^verbatim>\<open>s.find\<close> returns for each path of a list, asked in list order, each from the state
  the one before left. Used to say which path matches first.
\<close>

fun finds :: "'w Session \<Rightarrow> string list \<Rightarrow> 'w \<Rightarrow> ('w Element option \<times> error option) list" where
  "finds s [] w = []"
| "finds s (xpath # xpaths) w =
     (case Session_find s xpath w of (r, w') \<Rightarrow> r # finds s xpaths w')"

section \<open>Sample environments\<close>

text \<open>
  Three concrete outside worlds, for running the definitions: one where an engine already
  answers on the port (and the remote close of session 2 fails), one where nothing answers
  until the fourth request, and one where nothing ever answers.
\<close>

definition env_alive :: env where
  "env_alive =
     \<lparr>CHROME_DRIVER = ''/opt/chromedriver'',
      pgrep = (\<lambda>p. ''4711''),
      http_get = (\<lambda>k url. Inr 200),
      cmd_start = Inr 4712,
      cmd_wait = None,
      process_kill = None,
      session_quit = (\<lambda>s. if s = 2 then Some (External ''invalid session id'') else None),
      session_id = (\<lambda>s. Itoa (int s))\<rparr>"

definition env_spawn :: env where
  "env_spawn =
     \<lparr>CHROME_DRIVER = ''/opt/chromedriver'',
      pgrep = (\<lambda>p. []),
      http_get = (\<lambda>k url. if k < 3 then Inl (External ''connection refused'') else Inr 200),
      cmd_start = Inr 4712,
      cmd_wait = None,
      process_kill = None,
      session_quit = (\<lambda>s. None),
      session_id = (\<lambda>s. Itoa (int s))\<rparr>"

definition env_dead :: env where
  "env_dead =
     \<lparr>CHROME_DRIVER = ''/opt/chromedriver'',
      pgrep = (\<lambda>p. []),
      http_get = (\<lambda>k url. Inl (External ''connection refused'')),
      cmd_start = Inr 4712,
      cmd_wait = None,
      process_kill = None,
      session_quit = (\<lambda>s. None),
      session_id = (\<lambda>s. Itoa (int s))\<rparr>"

text \<open>As \<open>env_alive\<close>, but the setting \<^verbatim>\<open>CHROME_DRIVER\<close> is missing or blank.\<close>

definition env_blank :: env where
  "env_blank = env_alive\<lparr>CHROME_DRIVER := []\<rparr>"

text \<open>As \<open>env_dead\<close>, and the executable cannot be started either.\<close>

definition env_nostart :: env where
  "env_nostart =
     env_dead\<lparr>cmd_start := Inl (External ''fork/exec /opt/chromedriver: no such file or directory'')\<rparr>"

text \<open>The state of a program that has just started.\<close>

definition w0 :: world where
  "w0 = \<lparr>inst = None, sessions = [], debugFlag = False, trace = []\<rparr>"

text \<open>
  A run-time system in which the timer is created 200 nanoseconds after the ticker, every
  probe call takes 20 milliseconds and every race goes to the timer; a probe that says \<^verbatim>\<open>(false, nil)\<close> twice and then \<^verbatim>\<open>(true, nil)\<close>, one that
  never says \<^verbatim>\<open>done\<close>, and one that says \<^verbatim>\<open>(true, err)\<close> on its second call. Their state
  counts the calls.
\<close>

definition rt0 :: runtime where
  "rt0 = \<lparr>gap = 200, cost = (\<lambda>k. 20000000), races = [],
          stack = ''goroutine 1 [running]:''\<rparr>"

definition third_time :: "nat \<Rightarrow> (bool \<times> error option) \<times> nat" where
  "third_time s = ((2 \<le> s, None), s + 1)"

definition never_done :: "nat \<Rightarrow> (bool \<times> error option) \<times> nat" where
  "never_done s = ((False, None), s + 1)"

definition fails_second :: "nat \<Rightarrow> (bool \<times> error option) \<times> nat" where
  "fails_second s = ((1 \<le> s, if 1 \<le> s then Some (External ''session deleted'') else None), s + 1)"

text \<open>
  A remote side whose state counts the requests made to it. The engine reports ready from
  the second request on; the paths \<^verbatim>\<open>//b\<close> and \<^verbatim>\<open>//c\<close> match from the fourth request on,
  \<^verbatim>\<open>//bad\<close> is rejected, and every other path is answered with the remote not-found error.
\<close>

definition wd_sample :: "nat WebDriver" where
  "wd_sample =
     \<lparr>FindElement = (\<lambda>b x w.
        if x = ''//b'' \<and> 3 \<le> w then ((Some 7, None), w + 1)
        else if x = ''//c'' \<and> 3 \<le> w then ((Some 9, None), w + 1)
        else if x = ''//bad'' then ((None, Some (External ''invalid selector'')), w + 1)
        else ((None, Some (External ''no such element: Unable to locate element'')), w + 1)),
      Status = (\<lambda>w. (Inr (1 \<le> w), w + 1))\<rparr>"

definition s_sample :: "nat Session" where
  "s_sample = \<lparr>wd = wd_sample, timeout = 5500000000\<rparr>"

text \<open>The same remote side, except that its second request, a status query, fails.\<close>

definition s_flaky :: "nat Session" where
  "s_flaky =
     \<lparr>wd = wd_sample\<lparr>Status := (\<lambda>w. (if w = 1 then Inl (External ''chrome not reachable'')
                                          else Inr False, w + 1))\<rparr>,
      timeout = 5500000000\<rparr>"

text \<open>
  The state after \<^verbatim>\<open>Init(9515, false)\<close> found an engine already answering (adopted), with
  three sessions registered since; and the state after \<^verbatim>\<open>Init(9515, false)\<close> had to start
  the engine itself (owned).
\<close>

definition w_adopted :: world where
  "w_adopted = (snd (Init env_alive 9515 False w0))\<lparr>sessions := [1, 2, 3]\<rparr>"

definition w_owned :: world where
  "w_owned = (snd (Init env_spawn 9515 False w0))\<lparr>sessions := [1, 2, 3]\<rparr>"

section \<open>Properties of \<^verbatim>\<open>Session.Close\<close>\<close>

lemma Close_search_bounds:
  "idx \<le> length ss \<Longrightarrow> idx \<le> Close_search s ss idx \<and> Close_search s ss idx \<le> length ss"
proof (induction s ss idx rule: Close_search.induct)
  case (1 s ss idx)
  show ?case
  proof (cases "idx < length ss \<and> s \<noteq> ss ! idx")
    case True
    with "1.IH" have "idx + 1 \<le> Close_search s ss (idx + 1) \<and> Close_search s ss (idx + 1) \<le> length ss"
      by simp
    with True show ?thesis
      by (subst (1 2) Close_search.simps) simp
  next
    case False
    with "1.prems" show ?thesis
      by (subst (1 2) Close_search.simps) auto
  qed
qed

lemma Close_search_absent:
  "\<forall>i. idx \<le> i \<and> i < length ss \<longrightarrow> ss ! i \<noteq> s \<Longrightarrow> idx \<le> length ss \<Longrightarrow>
   Close_search s ss idx = length ss"
proof (induction s ss idx rule: Close_search.induct)
  case (1 s ss idx)
  show ?case
  proof (cases "idx < length ss")
    case True
    with "1.prems" have ne: "s \<noteq> ss ! idx" by auto
    from "1.prems" have "\<forall>i. idx + 1 \<le> i \<and> i < length ss \<longrightarrow> ss ! i \<noteq> s" by auto
    with "1.IH" True ne have "Close_search s ss (idx + 1) = length ss" by simp
    with True ne show ?thesis
      by (subst Close_search.simps) simp
  next
    case False
    with "1.prems" show ?thesis
      by (subst Close_search.simps) simp
  qed
qed

lemma Close_search_present:
  "s \<in> set ss \<Longrightarrow> Close_search s ss 0 < length ss \<and> ss ! Close_search s ss 0 = s"
proof -
  have gen: "\<exists>i. idx \<le> i \<and> i < length ss \<and> ss ! i = s \<Longrightarrow>
             Close_search s ss idx < length ss \<and> ss ! Close_search s ss idx = s" for idx
  proof (induction s ss idx rule: Close_search.induct)
    case (1 s ss idx)
    from "1.prems" have lt: "idx < length ss" by auto
    show ?case
    proof (cases "s = ss ! idx")
      case True
      with lt show ?thesis by (subst (1 2) Close_search.simps) simp
    next
      case False
      from "1.prems" obtain i where i: "idx \<le> i" "i < length ss" "ss ! i = s" by blast
      with False have "i \<noteq> idx" by auto
      with i have "\<exists>i. idx + 1 \<le> i \<and> i < length ss \<and> ss ! i = s"
        by (intro exI[of _ i]) auto
      with "1.IH" lt False
      have "Close_search s ss (idx + 1) < length ss \<and> ss ! Close_search s ss (idx + 1) = s"
        by simp
      with lt False show ?thesis by (subst (1 2) Close_search.simps) simp
    qed
  qed
  assume "s \<in> set ss"
  then have "\<exists>i. 0 \<le> i \<and> i < length ss \<and> ss ! i = s" by (auto simp: in_set_conv_nth)
  then show ?thesis by (rule gen)
qed

text \<open>
  C1. Closing a session that is not in the registry's collection (after a shutdown or an
  earlier close removed it) is claimed to be safe. The removal step of the code indexes the
  collection out of range there and panics: with index \<open>-1\<close> when the collection is empty,
  with index \<open>len(sessions)\<close> otherwise. No remote close is issued and the collection is
  left as it was.
\<close>

theorem Close_absent_panics:
  assumes "s \<notin> set (sessions w)"
  shows "Close e s w =
           (Inl (IndexOutOfRange (if sessions w = [] then - 1 else int (length (sessions w)))
                                 (length (sessions w))), w)"
proof -
  from assms have "\<forall>i. 0 \<le> i \<and> i < length (sessions w) \<longrightarrow> sessions w ! i \<noteq> s"
    by (auto simp: in_set_conv_nth)
  then have "Close_search s (sessions w) 0 = length (sessions w)"
    by (rule Close_search_absent) simp
  then show ?thesis
    by (simp add: Close_def Let_def)
qed

lemma Close_only_session:
  "Close env_alive 5 (w0\<lparr>sessions := [5]\<rparr>) = (Inr None, w0\<lparr>sessions := [], trace := [SessionQuit 5]\<rparr>)"
  by (simp add: Close_def Let_def Close_search.simps w0_def env_alive_def)

theorem Close_absent_panics_witness:
  "Close env_alive 5 (w0\<lparr>sessions := [5]\<rparr>) =
     (Inr None, w0\<lparr>sessions := [], trace := [SessionQuit 5]\<rparr>) \<and>
   Close env_alive 5 (snd (Close env_alive 5 (w0\<lparr>sessions := [5]\<rparr>))) =
     (Inl (IndexOutOfRange (- 1) 0), w0\<lparr>sessions := [], trace := [SessionQuit 5]\<rparr>) \<and>
   Close env_alive 9 (w0\<lparr>sessions := [1, 2, 3]\<rparr>) =
     (Inl (IndexOutOfRange 3 3), w0\<lparr>sessions := [1, 2, 3]\<rparr>)"
  using Close_absent_panics [of 5 "w0\<lparr>sessions := [], trace := [SessionQuit 5]\<rparr>" env_alive]
    Close_absent_panics [of 9 "w0\<lparr>sessions := [1, 2, 3]\<rparr>" env_alive]
  by (simp add: Close_only_session)

section \<open>Properties of \<^verbatim>\<open>newChromeDriver\<close> and \<^verbatim>\<open>driver.Stop\<close>\<close>

lemma nget_append [simp]: "nget (xs @ ys) = nget xs + nget ys"
  by (simp add: nget_def)

lemma nget_simps [simp]:
  "nget [] = 0"
  "nget (HttpGet url # tr) = Suc (nget tr)"
  "nget (Printf msg # tr) = nget tr"
  "nget (Pgrep p # tr) = nget tr"
  "nget (CmdStart p args # tr) = nget tr"
  "nget (CmdWait # tr) = nget tr"
  "nget (ProcessKill # tr) = nget tr"
  "nget (Sleep n # tr) = nget tr"
  "nget (SessionQuit s # tr) = nget tr"
  "nget (SignalNotify # tr) = nget tr"
  by (simp_all add: nget_def is_HttpGet_def)

lemma status_trace: "snd (status e addr tr) = tr @ [HttpGet (addr @ ''/status'')]"
  by (simp add: status_def split: sum.splits)

lemma status_code:
  "(fst (status e addr tr) = 200) =
   (http_get e (nget tr) (addr @ ''/status'') \<in> {Inr 403, Inr 400, Inr 200})"
  by (auto simp: status_def split: sum.splits)

lemma poll_success:
  "i + j < 30 \<Longrightarrow>
   \<forall>m<j. http_get e (nget tr + m) (d_addr dr @ ''/status'') \<notin> {Inr 403, Inr 400, Inr 200} \<Longrightarrow>
   http_get e (nget tr + j) (d_addr dr @ ''/status'') \<in> {Inr 403, Inr 400, Inr 200} \<Longrightarrow>
   newChromeDriver_poll e dr port i tr =
     (Inr (dr, True),
      tr @ concat (replicate (Suc j) [Sleep 1000000000, HttpGet (d_addr dr @ ''/status'')]))"
proof (induction j arbitrary: i tr)
  case 0
  then have "fst (status e (d_addr dr) (tr @ [Sleep 1000000000])) = 200"
    by (simp add: status_code)
  with 0 show ?case
    by (subst newChromeDriver_poll.simps)
       (simp add: status_trace split_beta)
next
  case (Suc j)
  let ?tr1 = "tr @ [Sleep 1000000000]"
  let ?tr2 = "tr @ [Sleep 1000000000, HttpGet (d_addr dr @ ''/status'')]"
  from Suc.prems(2) have "http_get e (nget tr + 0) (d_addr dr @ ''/status'') \<notin> {Inr 403, Inr 400, Inr 200}"
    by blast
  then have ne: "fst (status e (d_addr dr) ?tr1) \<noteq> 200"
    by (simp add: status_code)
  have tr2: "snd (status e (d_addr dr) ?tr1) = ?tr2"
    by (simp add: status_trace)
  have "newChromeDriver_poll e dr port (i + 1) ?tr2 =
     (Inr (dr, True),
      ?tr2 @ concat (replicate (Suc j) [Sleep 1000000000, HttpGet (d_addr dr @ ''/status'')]))"
  proof (rule Suc.IH)
    show "i + 1 + j < 30" using Suc.prems(1) by simp
    show "\<forall>m<j. http_get e (nget ?tr2 + m) (d_addr dr @ ''/status'') \<notin> {Inr 403, Inr 400, Inr 200}"
      using Suc.prems(2) by (auto simp: less_Suc_eq_0_disj)
    show "http_get e (nget ?tr2 + j) (d_addr dr @ ''/status'') \<in> {Inr 403, Inr 400, Inr 200}"
      using Suc.prems(3) by simp
  qed
  with ne tr2 Suc.prems(1) show ?case
    by (subst newChromeDriver_poll.simps) (simp add: split_beta)
qed

lemma poll_failure:
  "n + i = 30 \<Longrightarrow>
   \<forall>m<n. http_get e (nget tr + m) (d_addr dr @ ''/status'') \<notin> {Inr 403, Inr 400, Inr 200} \<Longrightarrow>
   newChromeDriver_poll e dr port i tr =
     (Inl (Errorf (''failed to start chrome driver on port '' @ Itoa port)),
      tr @ concat (replicate n [Sleep 1000000000, HttpGet (d_addr dr @ ''/status'')]))"
proof (induction n arbitrary: i tr)
  case 0
  then show ?case
    by (subst newChromeDriver_poll.simps) simp
next
  case (Suc n)
  let ?tr1 = "tr @ [Sleep 1000000000]"
  let ?tr2 = "tr @ [Sleep 1000000000, HttpGet (d_addr dr @ ''/status'')]"
  from Suc.prems(2) have "http_get e (nget tr + 0) (d_addr dr @ ''/status'') \<notin> {Inr 403, Inr 400, Inr 200}"
    by blast
  then have ne: "fst (status e (d_addr dr) ?tr1) \<noteq> 200"
    by (simp add: status_code)
  have tr2: "snd (status e (d_addr dr) ?tr1) = ?tr2"
    by (simp add: status_trace)
  have "newChromeDriver_poll e dr port (i + 1) ?tr2 =
     (Inl (Errorf (''failed to start chrome driver on port '' @ Itoa port)),
      ?tr2 @ concat (replicate n [Sleep 1000000000, HttpGet (d_addr dr @ ''/status'')]))"
  proof (rule Suc.IH)
    show "n + (i + 1) = 30" using Suc.prems(1) by simp
    show "\<forall>m<n. http_get e (nget ?tr2 + m) (d_addr dr @ ''/status'') \<notin> {Inr 403, Inr 400, Inr 200}"
      using Suc.prems(2) by (auto simp: less_Suc_eq_0_disj)
  qed
  with ne tr2 Suc.prems(1) show ?case
    by (subst newChromeDriver_poll.simps) (simp add: split_beta)
qed


text \<open>
  C7. \<^verbatim>\<open>newChromeDriver\<close> first probes \<^verbatim>\<open>/status\<close> at the driver's address. If the answer
  is Forbidden, BadRequest or OK, the running process is adopted: the call returns the
  driver with \<open>owned = False\<close> and has done nothing but that one request. Otherwise it
  starts the executable (a failed start is returned as it is) and then, up to 30 times,
  sleeps one second and probes again: the first answer among Forbidden, BadRequest and OK
  returns the driver with \<open>owned = True\<close>, and after 30 failed attempts the call returns
  the error whose text ends with the port number.
\<close>

theorem newChromeDriver_contract:
  fixes e :: env and path :: string and port :: int and w :: world
  defines "dr \<equiv> new_driver path port (debugFlag w)"
    and "url \<equiv> ''http://localhost:'' @ Itoa port @ ''/wd/hub/status''"
    and "k \<equiv> nget (trace w)"
    and "started \<equiv> [Printf (''*** [webdriver] starting chromedriver ***'' @ [CHR 0x0A]),
                     CmdStart path [''--port='' @ Itoa port, ''--url-base=wd/hub'', ''--verbose'']]"
    and "once \<equiv> [Sleep 1000000000, HttpGet (''http://localhost:'' @ Itoa port @ ''/wd/hub/status'')]"
  shows
    "(http_get e k url \<in> {Inr 403, Inr 400, Inr 200} \<longrightarrow>
        newChromeDriver e path port w =
          (Inr (dr, False), w\<lparr>trace := trace w @ [HttpGet url]\<rparr>)) \<and>
     (http_get e k url \<notin> {Inr 403, Inr 400, Inr 200} \<longrightarrow>
        (\<forall>err. cmd_start e = Inl err \<longrightarrow>
           newChromeDriver e path port w =
             (Inl err, w\<lparr>trace := trace w @ [HttpGet url] @ started\<rparr>)) \<and>
        (\<forall>pid j. cmd_start e = Inr pid \<and> j < 30 \<and>
           (\<forall>m<j. http_get e (k + 1 + m) url \<notin> {Inr 403, Inr 400, Inr 200}) \<and>
           http_get e (k + 1 + j) url \<in> {Inr 403, Inr 400, Inr 200} \<longrightarrow>
           newChromeDriver e path port w =
             (Inr (dr\<lparr>d_cmd := (d_cmd dr)\<lparr>Process := Some pid\<rparr>\<rparr>, True),
              w\<lparr>trace := trace w @ [HttpGet url] @ started @ concat (replicate (j + 1) once)\<rparr>)) \<and>
        (\<forall>pid. cmd_start e = Inr pid \<and>
           (\<forall>m<30. http_get e (k + 1 + m) url \<notin> {Inr 403, Inr 400, Inr 200}) \<longrightarrow>
           newChromeDriver e path port w =
             (Inl (Errorf (''failed to start chrome driver on port '' @ Itoa port)),
              w\<lparr>trace := trace w @ [HttpGet url] @ started @ concat (replicate 30 once)\<rparr>)))"
proof -
  have addr: "d_addr dr @ ''/status'' = url"
    by (simp add: dr_def url_def new_driver_def)
  have cmdf: "Path (d_cmd dr) = path"
    "Args (d_cmd dr) = [''--port='' @ Itoa port, ''--url-base=wd/hub'', ''--verbose'']"
    by (simp_all add: dr_def new_driver_def)
  have st_tr: "snd (status e (d_addr dr) (trace w)) = trace w @ [HttpGet url]"
    by (simp add: status_trace addr)
  have st_ok: "(fst (status e (d_addr dr) (trace w)) = 200) =
               (http_get e k url \<in> {Inr 403, Inr 400, Inr 200})"
    by (simp add: status_code addr k_def)
  have adopt: "newChromeDriver e path port w = (Inr (dr, False), w\<lparr>trace := trace w @ [HttpGet url]\<rparr>)"
    if "http_get e k url \<in> {Inr 403, Inr 400, Inr 200}"
    using that st_ok st_tr
    by (simp add: newChromeDriver_def Let_def dr_def [symmetric] split_beta)
  have nostart: "newChromeDriver e path port w =
             (Inl err, w\<lparr>trace := trace w @ [HttpGet url] @ started\<rparr>)"
    if "http_get e k url \<notin> {Inr 403, Inr 400, Inr 200}" "cmd_start e = Inl err" for err
    using that st_ok st_tr
    by (simp add: newChromeDriver_def Let_def dr_def [symmetric] split_beta cmdf started_def)
  let ?dr' = "dr\<lparr>d_cmd := (d_cmd dr)\<lparr>Process := Some pid\<rparr>\<rparr>"
  have addr': "d_addr (dr\<lparr>d_cmd := (d_cmd dr)\<lparr>Process := Some pid\<rparr>\<rparr>) @ ''/status'' = url" for pid
    using addr by simp
  have spawned: "newChromeDriver e path port w =
             (Inr (dr\<lparr>d_cmd := (d_cmd dr)\<lparr>Process := Some pid\<rparr>\<rparr>, True),
              w\<lparr>trace := trace w @ [HttpGet url] @ started @ concat (replicate (j + 1) once)\<rparr>)"
    if h: "http_get e k url \<notin> {Inr 403, Inr 400, Inr 200}" "cmd_start e = Inr pid" "j < 30"
      "\<forall>m<j. http_get e (k + 1 + m) url \<notin> {Inr 403, Inr 400, Inr 200}"
      "http_get e (k + 1 + j) url \<in> {Inr 403, Inr 400, Inr 200}" for pid j
  proof -
    have "newChromeDriver_poll e (dr\<lparr>d_cmd := (d_cmd dr)\<lparr>Process := Some pid\<rparr>\<rparr>) port 0
            (trace w @ [HttpGet url] @ started) =
          (Inr (dr\<lparr>d_cmd := (d_cmd dr)\<lparr>Process := Some pid\<rparr>\<rparr>, True),
           (trace w @ [HttpGet url] @ started) @ concat (replicate (Suc j)
              [Sleep 1000000000, HttpGet (d_addr (dr\<lparr>d_cmd := (d_cmd dr)\<lparr>Process := Some pid\<rparr>\<rparr>) @ ''/status'')]))"
      using h(3,4,5) by (intro poll_success) (simp_all add: addr started_def k_def)
    then have "newChromeDriver_poll e (dr\<lparr>d_cmd := (d_cmd dr)\<lparr>Process := Some pid\<rparr>\<rparr>) port 0
            (trace w @ [HttpGet url] @ started) =
          (Inr (dr\<lparr>d_cmd := (d_cmd dr)\<lparr>Process := Some pid\<rparr>\<rparr>, True),
           trace w @ [HttpGet url] @ started @ concat (replicate (j + 1) once))"
      by (simp add: addr once_def url_def)
    with h(1,2) st_ok st_tr show ?thesis
      by (simp add: newChromeDriver_def Let_def dr_def [symmetric] split_beta cmdf started_def)
  qed
  have exhausted: "newChromeDriver e path port w =
             (Inl (Errorf (''failed to start chrome driver on port '' @ Itoa port)),
              w\<lparr>trace := trace w @ [HttpGet url] @ started @ concat (replicate 30 once)\<rparr>)"
    if h: "http_get e k url \<notin> {Inr 403, Inr 400, Inr 200}" "cmd_start e = Inr pid"
      "\<forall>m<30. http_get e (k + 1 + m) url \<notin> {Inr 403, Inr 400, Inr 200}" for pid
  proof -
    have "newChromeDriver_poll e (dr\<lparr>d_cmd := (d_cmd dr)\<lparr>Process := Some pid\<rparr>\<rparr>) port 0
            (trace w @ [HttpGet url] @ started) =
          (Inl (Errorf (''failed to start chrome driver on port '' @ Itoa port)),
           (trace w @ [HttpGet url] @ started) @ concat (replicate 30
              [Sleep 1000000000, HttpGet (d_addr (dr\<lparr>d_cmd := (d_cmd dr)\<lparr>Process := Some pid\<rparr>\<rparr>) @ ''/status'')]))"
      using h(3) by (intro poll_failure) (simp_all add: addr started_def k_def)
    then have "newChromeDriver_poll e (dr\<lparr>d_cmd := (d_cmd dr)\<lparr>Process := Some pid\<rparr>\<rparr>) port 0
            (trace w @ [HttpGet url] @ started) =
          (Inl (Errorf (''failed to start chrome driver on port '' @ Itoa port)),
           trace w @ [HttpGet url] @ started @ concat (replicate 30 once))"
      by (simp add: addr once_def url_def)
    with h(1,2) st_ok st_tr show ?thesis
      by (simp add: newChromeDriver_def Let_def dr_def [symmetric] split_beta cmdf started_def)
  qed
  from adopt nostart spawned exhausted show ?thesis
    by blast
qed


lemma Itoa_9515: "Itoa 9515 = ''9515''"
  by (simp add: Itoa_def digits.simps)

theorem newChromeDriver_contract_witness:
  "newChromeDriver env_alive ''/opt/chromedriver'' 9515 w0 =
     (Inr (new_driver ''/opt/chromedriver'' 9515 False, False),
      w0\<lparr>trace := [HttpGet ''http://localhost:9515/wd/hub/status'']\<rparr>) \<and>
   newChromeDriver env_spawn ''/opt/chromedriver'' 9515 w0 =
     (Inr (new_driver ''/opt/chromedriver'' 9515 False
             \<lparr>d_cmd := (d_cmd (new_driver ''/opt/chromedriver'' 9515 False))\<lparr>Process := Some 4712\<rparr>\<rparr>, True),
      w0\<lparr>trace := [HttpGet ''http://localhost:9515/wd/hub/status'',
                    Printf (''*** [webdriver] starting chromedriver ***'' @ [CHR 0x0A]),
                    CmdStart ''/opt/chromedriver'' [''--port=9515'', ''--url-base=wd/hub'', ''--verbose''],
                    Sleep 1000000000, HttpGet ''http://localhost:9515/wd/hub/status'',
                    Sleep 1000000000, HttpGet ''http://localhost:9515/wd/hub/status'',
                    Sleep 1000000000, HttpGet ''http://localhost:9515/wd/hub/status'']\<rparr>) \<and>
   fst (newChromeDriver env_dead ''/opt/chromedriver'' 9515 w0) =
     Inl (Errorf ''failed to start chrome driver on port 9515'') \<and>
   length (filter is_HttpGet (trace (snd (newChromeDriver env_dead ''/opt/chromedriver'' 9515 w0)))) = 31 \<and>
   newChromeDriver env_nostart ''/opt/chromedriver'' 9515 w0 =
     (Inl (External ''fork/exec /opt/chromedriver: no such file or directory''),
      w0\<lparr>trace := [HttpGet ''http://localhost:9515/wd/hub/status'',
                    Printf (''*** [webdriver] starting chromedriver ***'' @ [CHR 0x0A]),
                    CmdStart ''/opt/chromedriver'' [''--port=9515'', ''--url-base=wd/hub'', ''--verbose'']]\<rparr>)"
proof -
  have n: "newChromeDriver env_nostart ''/opt/chromedriver'' 9515 w0 =
     (Inl (External ''fork/exec /opt/chromedriver: no such file or directory''),
      w0\<lparr>trace := [HttpGet ''http://localhost:9515/wd/hub/status'',
                    Printf (''*** [webdriver] starting chromedriver ***'' @ [CHR 0x0A]),
                    CmdStart ''/opt/chromedriver'' [''--port=9515'', ''--url-base=wd/hub'', ''--verbose'']]\<rparr>)"
    using newChromeDriver_contract [of env_nostart w0 9515 "''/opt/chromedriver''"]
    by (simp add: env_nostart_def env_dead_def w0_def Itoa_9515)
  have a: "newChromeDriver env_alive ''/opt/chromedriver'' 9515 w0 =
     (Inr (new_driver ''/opt/chromedriver'' 9515 False, False),
      w0\<lparr>trace := [HttpGet ''http://localhost:9515/wd/hub/status'']\<rparr>)"
    using newChromeDriver_contract [of env_alive w0 9515 "''/opt/chromedriver''"]
    by (simp add: env_alive_def w0_def Itoa_9515)
  have b: "newChromeDriver env_spawn ''/opt/chromedriver'' 9515 w0 =
     (Inr (new_driver ''/opt/chromedriver'' 9515 False
             \<lparr>d_cmd := (d_cmd (new_driver ''/opt/chromedriver'' 9515 False))\<lparr>Process := Some 4712\<rparr>\<rparr>, True),
      w0\<lparr>trace := [HttpGet ''http://localhost:9515/wd/hub/status'',
                    Printf (''*** [webdriver] starting chromedriver ***'' @ [CHR 0x0A]),
                    CmdStart ''/opt/chromedriver'' [''--port=9515'', ''--url-base=wd/hub'', ''--verbose''],
                    Sleep 1000000000, HttpGet ''http://localhost:9515/wd/hub/status'',
                    Sleep 1000000000, HttpGet ''http://localhost:9515/wd/hub/status'',
                    Sleep 1000000000, HttpGet ''http://localhost:9515/wd/hub/status'']\<rparr>)"
    using newChromeDriver_contract [of env_spawn w0 9515 "''/opt/chromedriver''", THEN conjunct2,
        THEN mp, THEN conjunct2, THEN conjunct1, THEN spec, THEN spec, of 4712 2]
    by (simp add: env_spawn_def w0_def Itoa_9515 numeral_2_eq_2)
  have c: "newChromeDriver env_dead ''/opt/chromedriver'' 9515 w0 =
     (Inl (Errorf ''failed to start chrome driver on port 9515''),
      w0\<lparr>trace := [HttpGet ''http://localhost:9515/wd/hub/status'',
                    Printf (''*** [webdriver] starting chromedriver ***'' @ [CHR 0x0A]),
                    CmdStart ''/opt/chromedriver'' [''--port=9515'', ''--url-base=wd/hub'', ''--verbose'']] @
                   concat (replicate 30 [Sleep 1000000000, HttpGet ''http://localhost:9515/wd/hub/status''])\<rparr>)"
    using newChromeDriver_contract [of env_dead w0 9515 "''/opt/chromedriver''"]
    by (simp add: env_dead_def w0_def Itoa_9515)
  have d: "length (filter is_HttpGet (concat (replicate n [Sleep 1000000000, HttpGet u]))) = n" for n u
    by (induction n) (simp_all add: is_HttpGet_def)
  from a b c n show ?thesis
    by (simp add: d is_HttpGet_def w0_def)
qed

lemma poll_driver:
  "newChromeDriver_poll e dr port i tr = (Inr (dr', b), tr') \<Longrightarrow> dr' = dr"
proof (induction e dr port i tr rule: newChromeDriver_poll.induct)
  case (1 e dr port i tr)
  show ?case
  proof (cases "i < 30")
    case True
    obtain code tr1 where st: "status e (d_addr dr) (tr @ [Sleep 1000000000]) = (code, tr1)"
      by (cases "status e (d_addr dr) (tr @ [Sleep 1000000000])")
    show ?thesis
    proof (cases "code = 200")
      case c: True
      with "1.prems" True st show ?thesis
        by (subst (asm) newChromeDriver_poll.simps) simp
    next
      case c: False
      with "1.prems" True st
      have "newChromeDriver_poll e dr port (i + 1) tr1 = (Inr (dr', b), tr')"
        by (subst (asm) newChromeDriver_poll.simps) simp
      with "1.IH" True st c show ?thesis by simp
    qed
  next
    case False
    with "1.prems" show ?thesis
      by (subst (asm) newChromeDriver_poll.simps) simp
  qed
qed

lemma newChromeDriver_driver:
  assumes "newChromeDriver e path port w = (Inr (dr, owned), w')"
  shows "shutdownURLPath dr = ''/shutdown''"
proof -
  let ?d = "new_driver path port (debugFlag w)"
  obtain code tr1 where st: "status e (d_addr ?d) (trace w) = (code, tr1)"
    by (cases "status e (d_addr ?d) (trace w)")
  show ?thesis
  proof (cases "code = 200")
    case True
    with assms st have "dr = ?d"
      by (simp add: newChromeDriver_def Let_def)
    then show ?thesis by (simp add: new_driver_def)
  next
    case False
    show ?thesis
    proof (cases "cmd_start e")
      case (Inl err)
      with assms st False show ?thesis
        by (simp add: newChromeDriver_def Let_def)
    next
      case (Inr pid)
      let ?d' = "?d\<lparr>d_cmd := (d_cmd ?d)\<lparr>Process := Some pid\<rparr>\<rparr>"
      let ?tr = "tr1 @ [Printf (''*** [webdriver] starting chromedriver ***'' @ [CHR 0x0A]),
                        CmdStart (Path (d_cmd ?d)) (Args (d_cmd ?d))]"
      obtain r tr2 where p: "newChromeDriver_poll e ?d' port 0 ?tr = (r, tr2)"
        by (cases "newChromeDriver_poll e ?d' port 0 ?tr")
      with assms st False Inr have "r = Inr (dr, owned)"
        by (simp add: newChromeDriver_def Let_def)
      with p have "dr = ?d'" by (auto dest: poll_driver)
      then show ?thesis by (simp add: new_driver_def)
    qed
  qed
qed

lemma Stop_wait_cases:
  "\<exists>r. Stop_wait e tr = (Inr r, tr @ [CmdWait])"
  by (simp add: Stop_wait_def split: option.splits)

text \<open>
  C10. Every driver returned by \<^verbatim>\<open>newChromeDriver\<close> has the shutdown path \<^verbatim>\<open>/shutdown\<close>, so
  \<^verbatim>\<open>Stop\<close> on it, in any environment and after any trace, requests the shutdown URL: it
  either returns after that request or after the wait that follows it, never kills the
  process directly and never panics.
\<close>

theorem newChromeDriver_shutdown_path:
  assumes "newChromeDriver e path port w = (Inr (dr, owned), w')"
  shows "shutdownURLPath dr = ''/shutdown'' \<and>
         (\<exists>r. Stop e' dr tr = (Inr r, tr @ [HttpGet (d_addr dr @ ''/shutdown'')]) \<or>
              Stop e' dr tr = (Inr r, tr @ [HttpGet (d_addr dr @ ''/shutdown''), CmdWait]))"
proof -
  from assms have p: "shutdownURLPath dr = ''/shutdown''"
    by (rule newChromeDriver_driver)
  show ?thesis
  proof (cases "http_get e' (nget tr) (d_addr dr @ ''/shutdown'')")
    case (Inl err)
    with p have "Stop e' dr tr = (Inr (Some err), tr @ [HttpGet (d_addr dr @ ''/shutdown'')])"
      by (simp add: Stop_def)
    with p show ?thesis by blast
  next
    case (Inr code)
    obtain r where "Stop_wait e' (tr @ [HttpGet (d_addr dr @ ''/shutdown'')]) =
                      (Inr r, (tr @ [HttpGet (d_addr dr @ ''/shutdown'')]) @ [CmdWait])"
      using Stop_wait_cases by blast
    with p Inr have "Stop e' dr tr = (Inr r, tr @ [HttpGet (d_addr dr @ ''/shutdown''), CmdWait])"
      by (simp add: Stop_def)
    with p show ?thesis by blast
  qed
qed


lemma newChromeDriver_env_spawn:
  "newChromeDriver env_spawn ''/opt/chromedriver'' 9515 w0 =
     (Inr (new_driver ''/opt/chromedriver'' 9515 False
             \<lparr>d_cmd := (d_cmd (new_driver ''/opt/chromedriver'' 9515 False))\<lparr>Process := Some 4712\<rparr>\<rparr>, True),
      w0\<lparr>trace := [HttpGet ''http://localhost:9515/wd/hub/status'',
                    Printf (''*** [webdriver] starting chromedriver ***'' @ [CHR 0x0A]),
                    CmdStart ''/opt/chromedriver'' [''--port=9515'', ''--url-base=wd/hub'', ''--verbose''],
                    Sleep 1000000000, HttpGet ''http://localhost:9515/wd/hub/status'',
                    Sleep 1000000000, HttpGet ''http://localhost:9515/wd/hub/status'',
                    Sleep 1000000000, HttpGet ''http://localhost:9515/wd/hub/status'']\<rparr>)"
  by (simp add: newChromeDriver_def Let_def status_def new_driver_def env_spawn_def w0_def
      newChromeDriver_poll.simps Itoa_9515)

lemma newChromeDriver_env_alive:
  "newChromeDriver env_alive ''/opt/chromedriver'' 9515 w0 =
     (Inr (new_driver ''/opt/chromedriver'' 9515 False, False),
      w0\<lparr>trace := [HttpGet ''http://localhost:9515/wd/hub/status'']\<rparr>)"
  by (simp add: newChromeDriver_def Let_def status_def new_driver_def env_alive_def w0_def Itoa_9515)

theorem newChromeDriver_shutdown_path_witness:
  "shutdownURLPath (new_driver ''/opt/chromedriver'' 9515 False
             \<lparr>d_cmd := (d_cmd (new_driver ''/opt/chromedriver'' 9515 False))\<lparr>Process := Some 4712\<rparr>\<rparr>)
     = ''/shutdown'' \<and>
   Stop env_spawn (new_driver ''/opt/chromedriver'' 9515 False
             \<lparr>d_cmd := (d_cmd (new_driver ''/opt/chromedriver'' 9515 False))\<lparr>Process := Some 4712\<rparr>\<rparr>) []
     = (Inr (Some (External ''connection refused'')), [HttpGet ''http://localhost:9515/wd/hub/shutdown'']) \<and>
   Stop env_alive (new_driver ''/opt/chromedriver'' 9515 False
             \<lparr>d_cmd := (d_cmd (new_driver ''/opt/chromedriver'' 9515 False))\<lparr>Process := Some 4712\<rparr>\<rparr>) []
     = (Inr None, [HttpGet ''http://localhost:9515/wd/hub/shutdown'', CmdWait])"
  using newChromeDriver_shutdown_path [OF newChromeDriver_env_spawn, of env_spawn "[]"]
        newChromeDriver_shutdown_path [OF newChromeDriver_env_spawn, of env_alive "[]"]
  by (simp add: Stop_def Stop_wait_def new_driver_def env_spawn_def env_alive_def Itoa_9515)

section \<open>Properties of \<^verbatim>\<open>Shutdown\<close> and \<^verbatim>\<open>Init\<close>\<close>

lemma Shutdown_sessions_trace:
  "Shutdown_sessions e ss tr =
     tr @ concat (map (\<lambda>s. [Printf (''*** [webdriver] closing session '' @ session_id e s
                                     @ '' ***'' @ [CHR 0x0A]), SessionQuit s]) ss)"
  by (induction ss arbitrary: tr) simp_all

lemma quits_filter:
  "filter is_SessionQuit (concat (map (\<lambda>s. [Printf (f s), SessionQuit s]) ss)) = map SessionQuit ss"
  "filter is_stop (concat (map (\<lambda>s. [Printf (f s), SessionQuit s]) ss)) = []"
  by (induction ss) (simp_all add: is_SessionQuit_def is_stop_def)

lemma Stop_trace:
  "\<exists>evs. snd (Stop e dr tr) = tr @ evs \<and> filter is_SessionQuit evs = []"
proof -
  have w: "snd (Stop_wait e tr') = tr' @ [CmdWait]" for tr'
    by (simp add: Stop_wait_def split: option.splits)
  show ?thesis
    by (cases "http_get e (nget tr) (d_addr dr @ shutdownURLPath dr)")
       (auto simp: Stop_def w is_SessionQuit_def split: option.splits)
qed

text \<open>
  C5. \<^verbatim>\<open>Shutdown\<close> extends the trace first by one remote close per registered session, in
  the order of the collection and whatever each close returns (the statement holds for
  every environment, so also for one where a \<^verbatim>\<open>Quit\<close> fails); none of the process-stopping
  events lies among them, and no remote close comes after them. If the process is owned,
  \<^verbatim>\<open>Stop\<close> runs on the trace that already holds all the closes; if it is not owned
  (adopted, or no supervisor at all), nothing that stops a process is done.
\<close>

theorem Shutdown_closes_sessions_first:
  fixes e :: env and w :: world
  defines "quits \<equiv> concat (map (\<lambda>s. [Printf (''*** [webdriver] closing session '' @ session_id e s
                                              @ '' ***'' @ [CHR 0x0A]), SessionQuit s]) (sessions w))"
    and "stopping \<equiv> Printf (''*** [webdriver] stopping webdriver ***'' @ [CHR 0x0A])"
  shows "\<exists>tail. trace (snd (Shutdown e w)) = trace w @ quits @ tail \<and>
           filter is_SessionQuit quits = map SessionQuit (sessions w) \<and>
           filter is_stop quits = [] \<and>
           filter is_SessionQuit tail = [] \<and>
           (\<forall>sv. inst w = Some sv \<and> ownDriver sv \<longrightarrow>
              prefix (snd (Stop e (srv_d sv) (trace w @ quits @ [stopping])))
                     (trace (snd (Shutdown e w)))) \<and>
           ((\<forall>sv. inst w = Some sv \<longrightarrow> \<not> ownDriver sv) \<longrightarrow> filter is_stop tail = [])"
proof -
  have q1: "filter is_SessionQuit quits = map SessionQuit (sessions w)"
    and q2: "filter is_stop quits = []"
    unfolding quits_def by (rule quits_filter)+
  have tr1: "Shutdown_sessions e (sessions w) (trace w) = trace w @ quits"
    by (simp add: Shutdown_sessions_trace quits_def)
  consider (owned) sv where "inst w = Some sv" "ownDriver sv"
    | (other) "\<forall>sv. inst w = Some sv \<longrightarrow> \<not> ownDriver sv"
    by blast
  then show ?thesis
  proof cases
    case owned
    obtain evs where evs: "snd (Stop e (srv_d sv) (trace w @ quits @ [stopping])) =
                             (trace w @ quits @ [stopping]) @ evs"
      "filter is_SessionQuit evs = []"
      using Stop_trace by blast
    obtain r tr2 where st: "Stop e (srv_d sv) (trace w @ quits @ [stopping]) = (r, tr2)"
      by (cases "Stop e (srv_d sv) (trace w @ quits @ [stopping])")
    with evs have tr2: "tr2 = trace w @ quits @ stopping # evs" by simp
    show ?thesis
    proof (cases r)
      case (Inl p)
      with owned st tr1 have "trace (snd (Shutdown e w)) = tr2"
        by (simp add: Shutdown_def Let_def stopping_def)
      with tr2 evs(2) q1 q2 owned st show ?thesis
        by (intro exI[of _ "stopping # evs"]) (simp add: is_SessionQuit_def stopping_def)
    next
      case (Inr res)
      with owned st tr1 have "trace (snd (Shutdown e w)) =
          tr2 @ [Printf (''*** [webdriver] shutdown complete ***'' @ [CHR 0x0A, CHR 0x0A])]"
        by (simp add: Shutdown_def Let_def stopping_def)
      with tr2 evs(2) q1 q2 owned st show ?thesis
        by (intro exI[of _ "stopping # evs @ [Printf (''*** [webdriver] shutdown complete ***'' @ [CHR 0x0A, CHR 0x0A])]"])
           (simp add: is_SessionQuit_def stopping_def)
    qed
  next
    case other
    let ?tail = "[Printf (''*** [webdriver] leave alone webdriver (not owned) ***'' @ [CHR 0x0A]),
                 Printf (''*** [webdriver] shutdown complete ***'' @ [CHR 0x0A, CHR 0x0A])]"
    from other tr1 have "trace (snd (Shutdown e w)) = trace w @ quits @ ?tail"
      by (cases "inst w") (simp_all add: Shutdown_def Let_def)
    moreover from other have "\<forall>sv. inst w = Some sv \<and> ownDriver sv \<longrightarrow>
              prefix (snd (Stop e (srv_d sv) (trace w @ quits @ [stopping])))
                     (trace (snd (Shutdown e w)))"
      by blast
    ultimately show ?thesis using q1 q2
      by (intro exI[of _ ?tail]) (simp add: is_SessionQuit_def is_stop_def)
  qed
qed


lemma w_adopted_eq:
  "w_adopted =
     \<lparr>inst = Some \<lparr>srv_d = new_driver ''/opt/chromedriver'' 9515 False, srv_port = 9515, ownDriver = False\<rparr>,
      sessions = [1, 2, 3], debugFlag = False,
      trace = [Pgrep ''/opt/chromedriver'',
               Printf (''*** [webdriver] detected chrome driver running process (PIDs = 4711) ***'' @ [CHR 0x0A]),
               HttpGet ''http://localhost:9515/wd/hub/status'', SignalNotify]\<rparr>"
proof -
  have "newChromeDriver env_alive ''/opt/chromedriver'' 9515
          (w0\<lparr>trace := [Pgrep ''/opt/chromedriver'',
               Printf (''*** [webdriver] detected chrome driver running process (PIDs = 4711) ***'' @ [CHR 0x0A])]\<rparr>) =
     (Inr (new_driver ''/opt/chromedriver'' 9515 False, False),
      w0\<lparr>trace := [Pgrep ''/opt/chromedriver'',
               Printf (''*** [webdriver] detected chrome driver running process (PIDs = 4711) ***'' @ [CHR 0x0A]),
               HttpGet ''http://localhost:9515/wd/hub/status'']\<rparr>)"
    by (simp add: newChromeDriver_def Let_def status_def new_driver_def env_alive_def w0_def Itoa_9515)
  then show ?thesis
    by (simp add: w_adopted_def Init_def Let_def commas_def env_alive_def w0_def)
qed

lemma w_owned_eq:
  "w_owned =
     \<lparr>inst = Some \<lparr>srv_d = new_driver ''/opt/chromedriver'' 9515 False
                       \<lparr>d_cmd := (d_cmd (new_driver ''/opt/chromedriver'' 9515 False))\<lparr>Process := Some 4712\<rparr>\<rparr>,
                   srv_port = 9515, ownDriver = True\<rparr>,
      sessions = [1, 2, 3], debugFlag = False,
      trace = [Pgrep ''/opt/chromedriver'',
               HttpGet ''http://localhost:9515/wd/hub/status'',
               Printf (''*** [webdriver] starting chromedriver ***'' @ [CHR 0x0A]),
               CmdStart ''/opt/chromedriver'' [''--port=9515'', ''--url-base=wd/hub'', ''--verbose''],
               Sleep 1000000000, HttpGet ''http://localhost:9515/wd/hub/status'',
               Sleep 1000000000, HttpGet ''http://localhost:9515/wd/hub/status'',
               Sleep 1000000000, HttpGet ''http://localhost:9515/wd/hub/status'',
               SignalNotify]\<rparr>"
proof -
  have "newChromeDriver env_spawn ''/opt/chromedriver'' 9515 (w0\<lparr>trace := [Pgrep ''/opt/chromedriver'']\<rparr>) =
     (Inr (new_driver ''/opt/chromedriver'' 9515 False
             \<lparr>d_cmd := (d_cmd (new_driver ''/opt/chromedriver'' 9515 False))\<lparr>Process := Some 4712\<rparr>\<rparr>, True),
      w0\<lparr>trace := [Pgrep ''/opt/chromedriver'',
                    HttpGet ''http://localhost:9515/wd/hub/status'',
                    Printf (''*** [webdriver] starting chromedriver ***'' @ [CHR 0x0A]),
                    CmdStart ''/opt/chromedriver'' [''--port=9515'', ''--url-base=wd/hub'', ''--verbose''],
                    Sleep 1000000000, HttpGet ''http://localhost:9515/wd/hub/status'',
                    Sleep 1000000000, HttpGet ''http://localhost:9515/wd/hub/status'',
                    Sleep 1000000000, HttpGet ''http://localhost:9515/wd/hub/status'']\<rparr>)"
    by (simp add: newChromeDriver_def Let_def status_def new_driver_def env_spawn_def w0_def
        newChromeDriver_poll.simps Itoa_9515)
  then show ?thesis
    by (simp add: w_owned_def Init_def Let_def env_spawn_def w0_def)
qed

lemma Itoa_123: "Itoa 1 = ''1''" "Itoa 2 = ''2''" "Itoa 3 = ''3''"
  by (simp_all add: Itoa_def digits.simps)

theorem Shutdown_closes_sessions_first_witness:
  "session_quit env_alive 2 = Some (External ''invalid session id'') \<and>
   (\<exists>tail. trace (snd (Shutdown env_alive w_owned)) =
            trace w_owned @
            [Printf (''*** [webdriver] closing session 1 ***'' @ [CHR 0x0A]), SessionQuit 1,
             Printf (''*** [webdriver] closing session 2 ***'' @ [CHR 0x0A]), SessionQuit 2,
             Printf (''*** [webdriver] closing session 3 ***'' @ [CHR 0x0A]), SessionQuit 3] @ tail \<and>
            filter is_SessionQuit tail = [] \<and>
            prefix (trace w_owned @
              [Printf (''*** [webdriver] closing session 1 ***'' @ [CHR 0x0A]), SessionQuit 1,
               Printf (''*** [webdriver] closing session 2 ***'' @ [CHR 0x0A]), SessionQuit 2,
               Printf (''*** [webdriver] closing session 3 ***'' @ [CHR 0x0A]), SessionQuit 3,
               Printf (''*** [webdriver] stopping webdriver ***'' @ [CHR 0x0A]),
               HttpGet ''http://localhost:9515/wd/hub/shutdown'', CmdWait])
              (trace (snd (Shutdown env_alive w_owned)))) \<and>
   (\<exists>tail. trace (snd (Shutdown env_alive w_adopted)) =
            trace w_adopted @
            [Printf (''*** [webdriver] closing session 1 ***'' @ [CHR 0x0A]), SessionQuit 1,
             Printf (''*** [webdriver] closing session 2 ***'' @ [CHR 0x0A]), SessionQuit 2,
             Printf (''*** [webdriver] closing session 3 ***'' @ [CHR 0x0A]), SessionQuit 3] @ tail \<and>
            filter is_stop tail = [])"
proof -
  have st: "Stop env_alive (new_driver ''/opt/chromedriver'' 9515 False
               \<lparr>d_cmd := (d_cmd (new_driver ''/opt/chromedriver'' 9515 False))\<lparr>Process := Some 4712\<rparr>\<rparr>) tr =
            (Inr None, tr @ [HttpGet ''http://localhost:9515/wd/hub/shutdown'', CmdWait])" for tr
    by (simp add: Stop_def Stop_wait_def new_driver_def env_alive_def Itoa_9515)
  have sid: "session_id env_alive s = Itoa (int s)" for s
    by (simp add: env_alive_def)
  have a: "inst w_owned = Some \<lparr>srv_d = new_driver ''/opt/chromedriver'' 9515 False
                       \<lparr>d_cmd := (d_cmd (new_driver ''/opt/chromedriver'' 9515 False))\<lparr>Process := Some 4712\<rparr>\<rparr>,
                   srv_port = 9515, ownDriver = True\<rparr>" "sessions w_owned = [1, 2, 3]"
    by (simp_all add: w_owned_eq)
  have b: "inst w_adopted = Some \<lparr>srv_d = new_driver ''/opt/chromedriver'' 9515 False, srv_port = 9515, ownDriver = False\<rparr>"
    "sessions w_adopted = [1, 2, 3]"
    by (simp_all add: w_adopted_eq)
  have q: "session_quit env_alive 2 = Some (External ''invalid session id'')"
    by (simp add: env_alive_def)
  from Shutdown_closes_sessions_first [of env_alive w_owned]
  have 1: "\<exists>tail. trace (snd (Shutdown env_alive w_owned)) =
            trace w_owned @
            [Printf (''*** [webdriver] closing session 1 ***'' @ [CHR 0x0A]), SessionQuit 1,
             Printf (''*** [webdriver] closing session 2 ***'' @ [CHR 0x0A]), SessionQuit 2,
             Printf (''*** [webdriver] closing session 3 ***'' @ [CHR 0x0A]), SessionQuit 3] @ tail \<and>
            filter is_SessionQuit tail = [] \<and>
            prefix (trace w_owned @
              [Printf (''*** [webdriver] closing session 1 ***'' @ [CHR 0x0A]), SessionQuit 1,
               Printf (''*** [webdriver] closing session 2 ***'' @ [CHR 0x0A]), SessionQuit 2,
               Printf (''*** [webdriver] closing session 3 ***'' @ [CHR 0x0A]), SessionQuit 3,
               Printf (''*** [webdriver] stopping webdriver ***'' @ [CHR 0x0A]),
               HttpGet ''http://localhost:9515/wd/hub/shutdown'', CmdWait])
              (trace (snd (Shutdown env_alive w_owned)))"
    by (auto simp: a st sid Itoa_123 is_SessionQuit_def is_stop_def)
  from Shutdown_closes_sessions_first [of env_alive w_adopted]
  have 2: "\<exists>tail. trace (snd (Shutdown env_alive w_adopted)) =
            trace w_adopted @
            [Printf (''*** [webdriver] closing session 1 ***'' @ [CHR 0x0A]), SessionQuit 1,
             Printf (''*** [webdriver] closing session 2 ***'' @ [CHR 0x0A]), SessionQuit 2,
             Printf (''*** [webdriver] closing session 3 ***'' @ [CHR 0x0A]), SessionQuit 3] @ tail \<and>
            filter is_stop tail = []"
    by (auto simp: b sid Itoa_123 is_SessionQuit_def is_stop_def)
  from q 1 2 show ?thesis by blast
qed


lemma Init_active:
  assumes "inst w \<noteq> None" "CHROME_DRIVER e \<noteq> []" "1000 \<le> port"
  shows "Init e port dbg w =
           (None, w\<lparr>trace := trace w @ Pgrep (CHROME_DRIVER e) #
                     (if pgrep e (CHROME_DRIVER e) = [] then []
                      else [Printf (''*** [webdriver] detected chrome driver running process (PIDs = ''
                                    @ commas (pgrep e (CHROME_DRIVER e)) @ '') ***'' @ [CHR 0x0A])])\<rparr>)"
  using assms by (simp add: Init_def Let_def)

lemma poll_nget:
  "nget tr \<le> nget (snd (newChromeDriver_poll e dr port i tr))"
proof (induction e dr port i tr rule: newChromeDriver_poll.induct)
  case (1 e dr port i tr)
  show ?case
  proof (cases "i < 30")
    case True
    obtain code tr1 where st: "status e (d_addr dr) (tr @ [Sleep 1000000000]) = (code, tr1)"
      by (cases "status e (d_addr dr) (tr @ [Sleep 1000000000])")
    then have tr1: "tr1 = tr @ [Sleep 1000000000, HttpGet (d_addr dr @ ''/status'')]"
      using status_trace [of e "d_addr dr" "tr @ [Sleep 1000000000]"] by simp
    show ?thesis
    proof (cases "code = 200")
      case c: True
      with True st tr1 show ?thesis
        by (subst newChromeDriver_poll.simps) simp
    next
      case c: False
      with "1.IH" True st have "nget tr1 \<le> nget (snd (newChromeDriver_poll e dr port (i + 1) tr1))"
        by simp
      with True st c tr1 show ?thesis
        by (subst newChromeDriver_poll.simps) simp
    qed
  next
    case False
    then show ?thesis
      by (subst newChromeDriver_poll.simps) simp
  qed
qed

lemma newChromeDriver_probes:
  "nget (trace w) < nget (trace (snd (newChromeDriver e path port w)))"
proof -
  let ?d = "new_driver path port (debugFlag w)"
  obtain code tr1 where st: "status e (d_addr ?d) (trace w) = (code, tr1)"
    by (cases "status e (d_addr ?d) (trace w)")
  then have tr1: "tr1 = trace w @ [HttpGet (d_addr ?d @ ''/status'')]"
    using status_trace [of e "d_addr ?d" "trace w"] by simp
  show ?thesis
  proof (cases "code = 200")
    case True
    with st tr1 show ?thesis
      by (simp add: newChromeDriver_def Let_def)
  next
    case False
    show ?thesis
    proof (cases "cmd_start e")
      case (Inl err)
      with st tr1 False show ?thesis
        by (simp add: newChromeDriver_def Let_def)
    next
      case (Inr pid)
      let ?d' = "?d\<lparr>d_cmd := (d_cmd ?d)\<lparr>Process := Some pid\<rparr>\<rparr>"
      let ?tr = "tr1 @ [Printf (''*** [webdriver] starting chromedriver ***'' @ [CHR 0x0A]),
                        CmdStart (Path (d_cmd ?d)) (Args (d_cmd ?d))]"
      have "nget ?tr \<le> nget (snd (newChromeDriver_poll e ?d' port 0 ?tr))"
        by (rule poll_nget)
      with tr1 have "nget (trace w) < nget (snd (newChromeDriver_poll e ?d' port 0 ?tr))"
        by simp
      with st False Inr show ?thesis
        by (simp add: newChromeDriver_def Let_def split_beta)
    qed
  qed
qed

lemma Init_fresh_probes:
  assumes "inst w = None" "CHROME_DRIVER e \<noteq> []" "1000 \<le> port"
  shows "nget (trace w) < nget (trace (snd (Init e port dbg w)))"
proof -
  let ?w1 = "w\<lparr>trace := trace w @ [Pgrep (CHROME_DRIVER e)] @
                    (if length (pgrep e (CHROME_DRIVER e)) > 0
                     then [Printf (''*** [webdriver] detected chrome driver running process (PIDs = ''
                                   @ commas (pgrep e (CHROME_DRIVER e)) @ '') ***'' @ [CHR 0x0A])]
                     else []), debugFlag := dbg\<rparr>"
  have "nget (trace ?w1) < nget (trace (snd (newChromeDriver e (CHROME_DRIVER e) port ?w1)))"
    by (rule newChromeDriver_probes)
  moreover have "nget (trace ?w1) = nget (trace w)" by simp
  ultimately have lt: "nget (trace w) < nget (trace (snd (newChromeDriver e (CHROME_DRIVER e) port ?w1)))"
    by simp
  obtain r w2 where n: "newChromeDriver e (CHROME_DRIVER e) port ?w1 = (r, w2)"
    by (cases "newChromeDriver e (CHROME_DRIVER e) port ?w1")
  with lt have lt2: "nget (trace w) < nget (trace w2)" by simp
  from assms n lt2 show ?thesis
    by (cases r) (auto simp: Init_def Let_def)
qed

lemma Shutdown_adopted:
  assumes "inst w = Some sv" "\<not> ownDriver sv"
  shows "Shutdown e w =
           (None, w\<lparr>sessions := [],
                    trace := Shutdown_sessions e (sessions w) (trace w) @
                      [Printf (''*** [webdriver] leave alone webdriver (not owned) ***'' @ [CHR 0x0A]),
                       Printf (''*** [webdriver] shutdown complete ***'' @ [CHR 0x0A, CHR 0x0A])]\<rparr>)"
  using assms by (simp add: Shutdown_def Let_def)

lemma Shutdown_inst:
  assumes "fst (Shutdown e w) = None"
  shows "inst (snd (Shutdown e w)) =
           (case inst w of None \<Rightarrow> None | Some sv \<Rightarrow> if ownDriver sv then None else Some sv)"
proof (cases "inst w")
  case None
  then show ?thesis by (simp add: Shutdown_def Let_def)
next
  case (Some sv)
  show ?thesis
  proof (cases "ownDriver sv")
    case True
    obtain r tr2 where st: "Stop e (srv_d sv)
            (Shutdown_sessions e (sessions w) (trace w) @
               [Printf (''*** [webdriver] stopping webdriver ***'' @ [CHR 0x0A])]) = (r, tr2)"
      by (cases "Stop e (srv_d sv) (Shutdown_sessions e (sessions w) (trace w) @
               [Printf (''*** [webdriver] stopping webdriver ***'' @ [CHR 0x0A])])")
    with assms Some True show ?thesis
      by (cases r) (simp_all add: Shutdown_def Let_def)
  next
    case False
    with Some show ?thesis by (simp add: Shutdown_def Let_def)
  qed
qed

text \<open>
  C2, amended. When \<^verbatim>\<open>Shutdown\<close> returns, the marker \<^verbatim>\<open>inst\<close> is cleared if the process was
  owned (or was not set at all); if the process was adopted the marker is kept as it was,
  and a following \<^verbatim>\<open>Init\<close> with a driver path and a port of at least 1000 returns
  success without a new HTTP probe and without starting a process. Only when the marker
  was cleared does such an \<^verbatim>\<open>Init\<close> probe again.
\<close>

theorem Shutdown_marker:
  "(fst (Shutdown e w) = None \<longrightarrow>
      inst (snd (Shutdown e w)) =
        (case inst w of None \<Rightarrow> None | Some sv \<Rightarrow> if ownDriver sv then None else Some sv)) \<and>
   (\<forall>sv. inst w = Some sv \<and> \<not> ownDriver sv \<and> CHROME_DRIVER e' \<noteq> [] \<and> 1000 \<le> port \<longrightarrow>
      fst (Shutdown e w) = None \<and>
      fst (Init e' port dbg (snd (Shutdown e w))) = None \<and>
      inst (snd (Init e' port dbg (snd (Shutdown e w)))) = Some sv \<and>
      filter is_HttpGet (trace (snd (Init e' port dbg (snd (Shutdown e w))))) =
        filter is_HttpGet (trace (snd (Shutdown e w))) \<and>
      filter is_spawn (trace (snd (Init e' port dbg (snd (Shutdown e w))))) =
        filter is_spawn (trace (snd (Shutdown e w)))) \<and>
   (inst (snd (Shutdown e w)) = None \<and> CHROME_DRIVER e' \<noteq> [] \<and> 1000 \<le> port \<longrightarrow>
      nget (trace (snd (Shutdown e w))) <
        nget (trace (snd (Init e' port dbg (snd (Shutdown e w))))))"
proof (intro conjI allI impI)
  assume "fst (Shutdown e w) = None"
  then show "inst (snd (Shutdown e w)) =
        (case inst w of None \<Rightarrow> None | Some sv \<Rightarrow> if ownDriver sv then None else Some sv)"
    by (rule Shutdown_inst)
next
  fix sv
  assume h: "inst w = Some sv \<and> \<not> ownDriver sv \<and> CHROME_DRIVER e' \<noteq> [] \<and> 1000 \<le> port"
  let ?w2 = "snd (Shutdown e w)"
  from h have sd: "fst (Shutdown e w) = None" "inst ?w2 = Some sv"
    by (simp_all add: Shutdown_adopted)
  from sd(2) h have i: "Init e' port dbg ?w2 =
           (None, ?w2\<lparr>trace := trace ?w2 @ Pgrep (CHROME_DRIVER e') #
                     (if pgrep e' (CHROME_DRIVER e') = [] then []
                      else [Printf (''*** [webdriver] detected chrome driver running process (PIDs = ''
                                    @ commas (pgrep e' (CHROME_DRIVER e')) @ '') ***'' @ [CHR 0x0A])])\<rparr>)"
    by (intro Init_active) simp_all
  show "fst (Shutdown e w) = None" by (rule sd(1))
  show "fst (Init e' port dbg ?w2) = None" by (simp add: i)
  show "inst (snd (Init e' port dbg ?w2)) = Some sv" by (simp add: i sd(2))
  show "filter is_HttpGet (trace (snd (Init e' port dbg ?w2))) = filter is_HttpGet (trace ?w2)"
    by (simp add: i is_HttpGet_def)
  show "filter is_spawn (trace (snd (Init e' port dbg ?w2))) = filter is_spawn (trace ?w2)"
    by (simp add: i is_spawn_def)
next
  assume "inst (snd (Shutdown e w)) = None \<and> CHROME_DRIVER e' \<noteq> [] \<and> 1000 \<le> port"
  then show "nget (trace (snd (Shutdown e w))) <
        nget (trace (snd (Init e' port dbg (snd (Shutdown e w)))))"
    by (intro Init_fresh_probes) simp_all
qed

lemma Init_blank:
  "CHROME_DRIVER e = [] \<Longrightarrow>
   Init e port dbg w = (Some (Errorf ''env CHROME_DRIVER is missing''), w)"
  by (simp add: Init_def)

lemma Init_small_port:
  "CHROME_DRIVER e \<noteq> [] \<Longrightarrow> port < 1000 \<Longrightarrow>
   Init e port dbg w = (Some (Errorf (''driver port < 1000: '' @ Itoa port)), w)"
  by (simp add: Init_def)

text \<open>
  C3, amended. If a supervisor is active, the driver path is set and the port is at least
  1000, then \<^verbatim>\<open>Init\<close> returns success for every debug flag and leaves \<^verbatim>\<open>inst\<close>, the
  sessions and the debug flag as they are: its only effects are the process scan and the
  line printed when the scan found something. No \<^verbatim>\<open>/status\<close> probe is made, no process is
  started, and no signal handler is installed again. In every state, so also with a
  supervisor active, a missing or blank driver path makes \<^verbatim>\<open>Init\<close> return the error that
  says so, and otherwise a port below 1000 makes it return the error that names the port;
  in both cases nothing is done and the state is as it was.
\<close>

theorem Init_active_is_noop:
  "(inst w \<noteq> None \<and> CHROME_DRIVER e \<noteq> [] \<and> 1000 \<le> port \<longrightarrow>
      Init e port dbg w =
        (None, w\<lparr>trace := trace w @ Pgrep (CHROME_DRIVER e) #
                  (if pgrep e (CHROME_DRIVER e) = [] then []
                   else [Printf (''*** [webdriver] detected chrome driver running process (PIDs = ''
                                 @ commas (pgrep e (CHROME_DRIVER e)) @ '') ***'' @ [CHR 0x0A])])\<rparr>)) \<and>
   (CHROME_DRIVER e = [] \<longrightarrow>
      Init e port dbg w = (Some (Errorf ''env CHROME_DRIVER is missing''), w)) \<and>
   (CHROME_DRIVER e \<noteq> [] \<and> port < 1000 \<longrightarrow>
      Init e port dbg w = (Some (Errorf (''driver port < 1000: '' @ Itoa port)), w))"
proof (intro conjI impI)
  assume "inst w \<noteq> None \<and> CHROME_DRIVER e \<noteq> [] \<and> 1000 \<le> port"
  then show "Init e port dbg w =
        (None, w\<lparr>trace := trace w @ Pgrep (CHROME_DRIVER e) #
                  (if pgrep e (CHROME_DRIVER e) = [] then []
                   else [Printf (''*** [webdriver] detected chrome driver running process (PIDs = ''
                                 @ commas (pgrep e (CHROME_DRIVER e)) @ '') ***'' @ [CHR 0x0A])])\<rparr>)"
    by (intro Init_active) simp_all
next
  assume "CHROME_DRIVER e = []"
  then show "Init e port dbg w = (Some (Errorf ''env CHROME_DRIVER is missing''), w)"
    by (rule Init_blank)
next
  assume "CHROME_DRIVER e \<noteq> [] \<and> port < 1000"
  then show "Init e port dbg w = (Some (Errorf (''driver port < 1000: '' @ Itoa port)), w)"
    by (intro Init_small_port) simp_all
qed


lemma Shutdown_w_owned:
  "fst (Shutdown env_alive w_owned) = None" "inst (snd (Shutdown env_alive w_owned)) = None"
proof -
  have st: "Stop env_alive (new_driver ''/opt/chromedriver'' 9515 False
               \<lparr>d_cmd := (d_cmd (new_driver ''/opt/chromedriver'' 9515 False))\<lparr>Process := Some 4712\<rparr>\<rparr>) tr =
            (Inr None, tr @ [HttpGet ''http://localhost:9515/wd/hub/shutdown'', CmdWait])" for tr
    by (simp add: Stop_def Stop_wait_def new_driver_def env_alive_def Itoa_9515)
  show "fst (Shutdown env_alive w_owned) = None" "inst (snd (Shutdown env_alive w_owned)) = None"
    by (simp_all add: Shutdown_def Let_def w_owned_eq st)
qed

lemma w_adopted_inst:
  "inst w_adopted = Some \<lparr>srv_d = new_driver ''/opt/chromedriver'' 9515 False,
                           srv_port = 9515, ownDriver = False\<rparr>"
  by (simp add: w_adopted_eq)

lemma env_alive_path: "CHROME_DRIVER env_alive = ''/opt/chromedriver''"
  by (simp add: env_alive_def)

theorem Shutdown_marker_witness:
  "inst (snd (Shutdown env_alive w_owned)) = None \<and>
   nget (trace (snd (Shutdown env_alive w_owned))) <
     nget (trace (snd (Init env_alive 9515 False (snd (Shutdown env_alive w_owned))))) \<and>
   fst (Shutdown env_alive w_adopted) = None \<and>
   fst (Init env_alive 9515 False (snd (Shutdown env_alive w_adopted))) = None \<and>
   inst (snd (Init env_alive 9515 False (snd (Shutdown env_alive w_adopted)))) = inst w_adopted \<and>
   filter is_HttpGet (trace (snd (Init env_alive 9515 False (snd (Shutdown env_alive w_adopted))))) =
     filter is_HttpGet (trace (snd (Shutdown env_alive w_adopted)))"
  using Shutdown_marker [of env_alive w_owned env_alive 9515 False]
        Shutdown_marker [of env_alive w_adopted env_alive 9515 False]
  by (simp add: Shutdown_w_owned w_adopted_inst env_alive_path)

text \<open>
  C2 as stated fails: after \<^verbatim>\<open>Init\<close> adopted a running engine, \<^verbatim>\<open>Shutdown\<close> returns with
  the marker still set, and the next \<^verbatim>\<open>Init\<close> is a no-op that makes no HTTP request.
\<close>

theorem Shutdown_adopted_keeps_marker:
  "fst (Shutdown env_alive w_adopted) = None \<and>
   inst (snd (Shutdown env_alive w_adopted)) =
     Some \<lparr>srv_d = new_driver ''/opt/chromedriver'' 9515 False, srv_port = 9515, ownDriver = False\<rparr> \<and>
   fst (Init env_alive 9515 False (snd (Shutdown env_alive w_adopted))) = None \<and>
   nget (trace (snd (Init env_alive 9515 False (snd (Shutdown env_alive w_adopted))))) =
     nget (trace (snd (Shutdown env_alive w_adopted)))"
proof -
  have sd: "Shutdown env_alive w_adopted =
           (None, w_adopted\<lparr>sessions := [],
                    trace := Shutdown_sessions env_alive (sessions w_adopted) (trace w_adopted) @
                      [Printf (''*** [webdriver] leave alone webdriver (not owned) ***'' @ [CHR 0x0A]),
                       Printf (''*** [webdriver] shutdown complete ***'' @ [CHR 0x0A, CHR 0x0A])]\<rparr>)"
    by (rule Shutdown_adopted [OF w_adopted_inst]) simp
  have i: "inst (snd (Shutdown env_alive w_adopted)) \<noteq> None"
    by (simp add: sd w_adopted_inst)
  show ?thesis
    using Init_active [OF i, of env_alive 9515 False]
    by (simp add: env_alive_path) (simp add: sd w_adopted_inst)
qed

theorem Init_active_is_noop_witness:
  "inst w_adopted \<noteq> None \<and> CHROME_DRIVER env_alive \<noteq> [] \<and> (1000::int) \<le> 9515 \<and>
   Init env_alive 9515 True w_adopted =
     (None, w_adopted\<lparr>trace := trace w_adopted @
        [Pgrep ''/opt/chromedriver'',
         Printf (''*** [webdriver] detected chrome driver running process (PIDs = 4711) ***''
                 @ [CHR 0x0A])]\<rparr>) \<and>
   CHROME_DRIVER env_blank = [] \<and>
   Init env_blank 9515 True w_adopted = (Some (Errorf ''env CHROME_DRIVER is missing''), w_adopted) \<and>
   (80::int) < 1000 \<and>
   Init env_alive 80 True w_adopted = (Some (Errorf ''driver port < 1000: 80''), w_adopted)"
proof -
  have a: "Init env_alive 9515 True w_adopted =
     (None, w_adopted\<lparr>trace := trace w_adopted @
        [Pgrep ''/opt/chromedriver'',
         Printf (''*** [webdriver] detected chrome driver running process (PIDs = 4711) ***''
                 @ [CHR 0x0A])]\<rparr>)"
    using Init_active_is_noop [of w_adopted env_alive 9515 True]
    by (simp add: w_adopted_inst env_alive_path) (simp add: env_alive_def commas_def)
  have b: "CHROME_DRIVER env_blank = []"
    by (simp add: env_blank_def)
  have c: "Init env_blank 9515 True w_adopted = (Some (Errorf ''env CHROME_DRIVER is missing''), w_adopted)"
    using Init_active_is_noop [of w_adopted env_blank 9515 True] b by simp
  have d: "Init env_alive 80 True w_adopted = (Some (Errorf ''driver port < 1000: 80''), w_adopted)"
    using Init_active_is_noop [of w_adopted env_alive 80 True]
    by (simp add: env_alive_path Itoa_def digits.simps)
  show ?thesis
    using a b c d by (simp add: w_adopted_inst env_alive_path)
qed

text \<open>
  C3 as stated fails for a port below 1000: with a supervisor active, \<^verbatim>\<open>Init(999, true)\<close>
  returns the port error, because the argument checks come before the look at \<^verbatim>\<open>inst\<close>.
\<close>

theorem Init_active_small_port_fails:
  "inst w_adopted \<noteq> None \<and>
   Init env_alive 999 True w_adopted = (Some (Errorf ''driver port < 1000: 999''), w_adopted)"
  by (simp add: w_adopted_inst Init_def env_alive_path Itoa_def digits.simps)

section \<open>Properties of the poll engine\<close>

lemma calls_length: "calls fn k s = (rs, s') \<Longrightarrow> length rs = k"
  by (induction k arbitrary: s rs s') (auto split: prod.splits)

lemma calls_Suc:
  "fn s = (r, s1) \<Longrightarrow> calls fn k s1 = (rs, s') \<Longrightarrow> calls fn (Suc k) s = (r # rs, s')"
  by simp

lemma waitOn_loop_contract:
  "waitOn_loop fn cst stk D emptied now n rs s h = (res, s', h') \<Longrightarrow>
   \<exists>k ps. calls fn k s = (ps, s') \<and>
     (h' = h @ replicate k Tick @ [Deadline] \<and> res = Some (Wrapf ErrWaitTimeout stk) \<and>
        (\<forall>i<k. ps ! i = (False, None))
      \<or>
      0 < k \<and> h' = h @ replicate k Tick \<and> (\<forall>i<k - 1. ps ! i = (False, None)) \<and>
        (ps ! (k - 1) = (True, None) \<and> res = None \<or>
         (\<exists>d e. ps ! (k - 1) = (d, Some e) \<and> res = Some e)))"
proof (induction fn cst stk D emptied now n rs s h arbitrary: res s' h' rule: waitOn_loop.induct)
  case (1 fn cst stk D emptied now n rs s h)
  obtain c t rs' where sl: "select D emptied now rs = (c, t, rs')"
    by (cases "select D emptied now rs")
  show ?case
  proof (cases c)
    case Deadline
    with sl "1.prems" have "h' = h @ [Deadline]" "res = Some (Wrapf ErrWaitTimeout stk)" "s' = s"
      by (simp_all add: waitOn_loop.simps)
    then show ?thesis
      by (intro exI[of _ 0] exI[of _ "[]"]) simp
  next
    case Tick
    obtain d err s1 where f: "fn s = ((d, err), s1)"
      by (cases "fn s") auto
    show ?thesis
    proof (cases err)
      case (Some e)
      with sl Tick f "1.prems" have "h' = h @ [Tick]" "res = Some e" "s' = s1"
        by (simp_all add: waitOn_loop.simps)
      with f Some show ?thesis
        by (intro exI[of _ 1] exI[of _ "[(d, Some e)]"]) simp
    next
      case None
      show ?thesis
      proof (cases d)
        case True
        with sl Tick f None "1.prems" have "h' = h @ [Tick]" "res = None" "s' = s1"
          by (simp_all add: waitOn_loop.simps)
        with f None True show ?thesis
          by (intro exI[of _ 1] exI[of _ "[(True, None)]"]) simp
      next
        case False
        with sl Tick f None "1.prems"
        have rec: "waitOn_loop fn cst stk D t (t + cst n) (n + 1) rs' s1 (h @ [Tick]) = (res, s', h')"
          by (simp add: waitOn_loop.simps)
        have "\<exists>k ps. calls fn k s1 = (ps, s') \<and>
           (h' = (h @ [Tick]) @ replicate k Tick @ [Deadline] \<and> res = Some (Wrapf ErrWaitTimeout stk) \<and>
              (\<forall>i<k. ps ! i = (False, None))
            \<or>
            0 < k \<and> h' = (h @ [Tick]) @ replicate k Tick \<and> (\<forall>i<k - 1. ps ! i = (False, None)) \<and>
              (ps ! (k - 1) = (True, None) \<and> res = None \<or>
               (\<exists>d e. ps ! (k - 1) = (d, Some e) \<and> res = Some e)))"
          using sl Tick f None False rec
          by (intro "1.IH"[of c "(t, rs')" t rs' "(d, err)" s1 d err]) simp_all
        then obtain k ps where kp: "calls fn k s1 = (ps, s')"
          and alt: "h' = (h @ [Tick]) @ replicate k Tick @ [Deadline] \<and> res = Some (Wrapf ErrWaitTimeout stk) \<and>
              (\<forall>i<k. ps ! i = (False, None))
            \<or>
            0 < k \<and> h' = (h @ [Tick]) @ replicate k Tick \<and> (\<forall>i<k - 1. ps ! i = (False, None)) \<and>
              (ps ! (k - 1) = (True, None) \<and> res = None \<or>
               (\<exists>d e. ps ! (k - 1) = (d, Some e) \<and> res = Some e))"
          by blast
        from f None False kp have c: "calls fn (Suc k) s = ((False, None) # ps, s')"
          by simp
        have nth: "\<forall>i<m. ps ! i = (False, None) \<Longrightarrow> \<forall>i<Suc m. ((False, None) # ps) ! i = (False, None)" for m
          by (auto simp: nth_Cons split: nat.splits)
        from alt show ?thesis
        proof
          assume a: "h' = (h @ [Tick]) @ replicate k Tick @ [Deadline] \<and> res = Some (Wrapf ErrWaitTimeout stk) \<and>
              (\<forall>i<k. ps ! i = (False, None))"
          then have "\<forall>i<Suc k. ((False, None) # ps) ! i = (False, None)" using nth by blast
          with a c show ?thesis
            by (intro exI[of _ "Suc k"] exI[of _ "(False, None) # ps"]) (simp add: replicate_app_Cons_same)
        next
          assume a: "0 < k \<and> h' = (h @ [Tick]) @ replicate k Tick \<and> (\<forall>i<k - 1. ps ! i = (False, None)) \<and>
              (ps ! (k - 1) = (True, None) \<and> res = None \<or>
               (\<exists>d e. ps ! (k - 1) = (d, Some e) \<and> res = Some e))"
          then obtain j where j: "k = Suc j" by (cases k) auto
          from a j have "\<forall>i<Suc j. ((False, None) # ps) ! i = (False, None)" using nth [of j] by simp
          with a c j show ?thesis
            by (intro exI[of _ "Suc k"] exI[of _ "(False, None) # ps"]) (simp add: replicate_app_Cons_same)
        qed
      qed
    qed
  qed
qed


lemma waitOn_cases:
  assumes "waitOn fn to rt s = (res, s', h)"
  shows "\<exists>k ps. calls fn k s = (ps, s') \<and> length ps = k \<and>
     (h = replicate k Tick @ [Deadline] \<and> res = Some (Wrapf ErrWaitTimeout (stack rt)) \<and>
        (\<forall>i<k. ps ! i = (False, None))
      \<or>
      0 < k \<and> h = replicate k Tick \<and> (\<forall>i<k - 1. ps ! i = (False, None)) \<and>
        (ps ! (k - 1) = (True, None) \<and> res = None \<or>
         (\<exists>d e. ps ! (k - 1) = (d, Some e) \<and> res = Some e)))"
proof -
  from assms
  have "waitOn_loop fn (cost rt) (stack rt) (gap rt + nat to) 0 (gap rt) 0 (races rt) s [] = (res, s', h)"
    by (simp add: waitOn_def)
  from waitOn_loop_contract [OF this] obtain k ps where c: "calls fn k s = (ps, s')"
    and alt: "h = [] @ replicate k Tick @ [Deadline] \<and> res = Some (Wrapf ErrWaitTimeout (stack rt)) \<and>
        (\<forall>i<k. ps ! i = (False, None))
      \<or>
      0 < k \<and> h = [] @ replicate k Tick \<and> (\<forall>i<k - 1. ps ! i = (False, None)) \<and>
        (ps ! (k - 1) = (True, None) \<and> res = None \<or>
         (\<exists>d e. ps ! (k - 1) = (d, Some e) \<and> res = Some e))"
    by blast
  have "length ps = k" using c by (rule calls_length)
  with c alt show ?thesis
    by (intro exI[of _ k] exI[of _ ps]) simp
qed

text \<open>
  C4. Whatever \<^verbatim>\<open>waitOn\<close> returns, there is a number \<open>k\<close> such that the ticker's case was
  taken \<open>k\<close> times and the probe was called \<open>k\<close> times, once per tick, each call from the
  state the call before left. A call that returned \<^verbatim>\<open>(true, nil)\<close> was the last and the wait
  returned nil; a call that returned an error was the last, no tick followed, and the wait
  returned that very error; after a call that returned \<^verbatim>\<open>(false, nil)\<close> the wait went on, to
  a further tick or to the timer. If the timer's case was taken, every call before it had
  returned \<^verbatim>\<open>(false, nil)\<close> and the wait returned \<^verbatim>\<open>ErrWaitTimeout\<close>, wrapped with the stack;
  and if no call returned \<^verbatim>\<open>done\<close> or an error, the timer's case was taken and that is the
  error returned. (\<^verbatim>\<open>waitOn\<close> is a total function here: it always returns.)
\<close>

theorem waitOn_contract:
  assumes "waitOn fn to rt s = (res, s', h)"
  shows "\<exists>k ps. calls fn k s = (ps, s') \<and> length ps = k \<and>
           (h = replicate k Tick \<or> h = replicate k Tick @ [Deadline]) \<and>
           (\<forall>i<k. ps ! i = (True, None) \<longrightarrow> Suc i = k \<and> h = replicate k Tick \<and> res = None) \<and>
           (\<forall>i<k. \<forall>d e. ps ! i = (d, Some e) \<longrightarrow> Suc i = k \<and> h = replicate k Tick \<and> res = Some e) \<and>
           (\<forall>i<k. ps ! i = (False, None) \<longrightarrow> Suc i < k \<or> h = replicate k Tick @ [Deadline]) \<and>
           (h = replicate k Tick @ [Deadline] \<longrightarrow>
              res = Some (Wrapf ErrWaitTimeout (stack rt)) \<and> (\<forall>i<k. ps ! i = (False, None))) \<and>
           ((\<forall>i<k. ps ! i = (False, None)) \<longrightarrow>
              h = replicate k Tick @ [Deadline] \<and> res = Some (Wrapf ErrWaitTimeout (stack rt)))"
proof -
  from waitOn_cases [OF assms] obtain k ps where c: "calls fn k s = (ps, s')"
    and len: "length ps = k"
    and alt: "h = replicate k Tick @ [Deadline] \<and> res = Some (Wrapf ErrWaitTimeout (stack rt)) \<and>
        (\<forall>i<k. ps ! i = (False, None))
      \<or>
      0 < k \<and> h = replicate k Tick \<and> (\<forall>i<k - 1. ps ! i = (False, None)) \<and>
        (ps ! (k - 1) = (True, None) \<and> res = None \<or>
         (\<exists>d e. ps ! (k - 1) = (d, Some e) \<and> res = Some e))"
    by blast
  have ne: "replicate k Tick \<noteq> replicate k Tick @ [Deadline]" by simp
  from alt show ?thesis
  proof
    assume a: "h = replicate k Tick @ [Deadline] \<and> res = Some (Wrapf ErrWaitTimeout (stack rt)) \<and>
        (\<forall>i<k. ps ! i = (False, None))"
    with c len show ?thesis
      by (intro exI[of _ k] exI[of _ ps]) simp
  next
    assume b: "0 < k \<and> h = replicate k Tick \<and> (\<forall>i<k - 1. ps ! i = (False, None)) \<and>
        (ps ! (k - 1) = (True, None) \<and> res = None \<or>
         (\<exists>d e. ps ! (k - 1) = (d, Some e) \<and> res = Some e))"
    then have k: "0 < k" and h: "h = replicate k Tick"
      and early: "\<forall>i<k - 1. ps ! i = (False, None)"
      and last: "ps ! (k - 1) = (True, None) \<and> res = None \<or>
         (\<exists>d e. ps ! (k - 1) = (d, Some e) \<and> res = Some e)"
      by simp_all
    have pos: "i = k - 1" if "i < k" "ps ! i \<noteq> (False, None)" for i
    proof -
      from early that(2) have "\<not> i < k - 1" by auto
      with that(1) show ?thesis by simp
    qed
    have 1: "\<forall>i<k. ps ! i = (True, None) \<longrightarrow> Suc i = k \<and> h = replicate k Tick \<and> res = None"
    proof (intro allI impI)
      fix i assume i: "i < k" "ps ! i = (True, None)"
      then have "i = k - 1" by (intro pos) simp_all
      with i last k h show "Suc i = k \<and> h = replicate k Tick \<and> res = None" by auto
    qed
    have 2: "\<forall>i<k. \<forall>d e. ps ! i = (d, Some e) \<longrightarrow> Suc i = k \<and> h = replicate k Tick \<and> res = Some e"
    proof (intro allI impI)
      fix i d e assume i: "i < k" "ps ! i = (d, Some e)"
      then have "i = k - 1" by (intro pos) simp_all
      with i last k h show "Suc i = k \<and> h = replicate k Tick \<and> res = Some e" by auto
    qed
    have 3: "\<forall>i<k. ps ! i = (False, None) \<longrightarrow> Suc i < k \<or> h = replicate k Tick @ [Deadline]"
    proof (intro allI impI)
      fix i assume i: "i < k" "ps ! i = (False, None)"
      with last have "i \<noteq> k - 1" by auto
      with i have "Suc i < k" by linarith
      then show "Suc i < k \<or> h = replicate k Tick @ [Deadline]" ..
    qed
    have 4: "\<not> (\<forall>i<k. ps ! i = (False, None))"
    proof
      assume "\<forall>i<k. ps ! i = (False, None)"
      with k have "ps ! (k - 1) = (False, None)" by simp
      with last show False by auto
    qed
    from c len h 1 2 3 4 ne show ?thesis
      by (intro exI[of _ k] exI[of _ ps]) simp
  qed
qed

lemma waitOn_third_time:
  "waitOn third_time 3500000000 rt0 0 = (None, 3, [Tick, Tick, Tick])"
  by (simp add: waitOn_def waitOn_loop.simps select_def tick_ready_def period_def race_def
      rt0_def third_time_def)

lemma waitOn_never_done:
  "waitOn never_done 3000000000 rt0 0 =
     (Some (Wrapf ErrWaitTimeout ''goroutine 1 [running]:''), 3, [Tick, Tick, Tick, Deadline])"
  by (simp add: waitOn_def waitOn_loop.simps select_def tick_ready_def period_def race_def
      rt0_def never_done_def)

text \<open>
  With a timeout that is 200 nanoseconds short of three periods the third tick and the
  timer fall on the same instant, and \<^verbatim>\<open>select\<close> may take either: the run-time system
  decides whether the third probe is still called.
\<close>

lemma waitOn_third_time_race:
  "waitOn third_time 2999999800 rt0 0 =
     (Some (Wrapf ErrWaitTimeout ''goroutine 1 [running]:''), 2, [Tick, Tick, Deadline])"
  "waitOn third_time 2999999800 (rt0\<lparr>races := [Tick]\<rparr>) 0 = (None, 3, [Tick, Tick, Tick])"
  by (simp_all add: waitOn_def waitOn_loop.simps select_def tick_ready_def period_def race_def
      rt0_def third_time_def)

lemma waitOn_fails_second:
  "waitOn fails_second 3000000000 rt0 0 = (Some (External ''session deleted''), 2, [Tick, Tick])"
  by (simp add: waitOn_def waitOn_loop.simps select_def tick_ready_def period_def race_def
      rt0_def fails_second_def)



theorem waitOn_contract_witness:
  "waitOn third_time 3500000000 rt0 0 = (None, 3, [Tick, Tick, Tick]) \<and>
   (\<exists>ps. calls third_time 3 0 = (ps, 3) \<and> ps ! 2 = (True, None)) \<and>
   waitOn never_done 3000000000 rt0 0 =
     (Some (Wrapf ErrWaitTimeout ''goroutine 1 [running]:''), 3, [Tick, Tick, Tick, Deadline]) \<and>
   (\<exists>ps. calls never_done 3 0 = (ps, 3) \<and> ps ! 0 = (False, None) \<and> ps ! 1 = (False, None) \<and>
      ps ! 2 = (False, None)) \<and>
   waitOn fails_second 3000000000 rt0 0 = (Some (External ''session deleted''), 2, [Tick, Tick]) \<and>
   (\<exists>ps. calls fails_second 2 0 = (ps, 2) \<and> ps ! 1 = (True, Some (External ''session deleted'')))"
proof -
  have c3: "calls third_time 3 0 = ([(False, None), (False, None), (True, None)], 3)"
    by (simp add: eval_nat_numeral third_time_def)
  have c2: "calls never_done 3 0 = ([(False, None), (False, None), (False, None)], 3)"
    by (simp add: eval_nat_numeral never_done_def)
  have c2': "calls fails_second 2 0 = ([(False, None), (True, Some (External ''session deleted''))], 2)"
    by (simp add: eval_nat_numeral fails_second_def)
  from waitOn_contract [OF waitOn_third_time] waitOn_contract [OF waitOn_never_done]
    waitOn_contract [OF waitOn_fails_second]
  show ?thesis
    by (simp add: waitOn_third_time waitOn_never_done waitOn_fails_second c3 c2 c2')
qed

lemma waitOn_loop_history:
  "\<exists>h'. snd (snd (waitOn_loop fn cst stk D emptied now n rs s h)) = h @ h'"
proof -
  obtain res s' hh where r: "waitOn_loop fn cst stk D emptied now n rs s h = (res, s', hh)"
    by (cases "waitOn_loop fn cst stk D emptied now n rs s h")
  from waitOn_loop_contract [OF r] obtain k where
    "hh = h @ replicate k Tick @ [Deadline] \<or> hh = h @ replicate k Tick"
    by blast
  with r show ?thesis by auto
qed

text \<open>
  C9, amended. The ticker is created before the timer, so the timer is due \<open>gap + timeout\<close>
  after the ticker's start, not \<open>timeout\<close>. If that is below the one-second period (zero
  and negative timeouts included), then for every probe and every state the first
  \<^verbatim>\<open>select\<close> takes the timer's case: the probe is not called, the state is untouched, and
  the error returned has \<^verbatim>\<open>ErrWaitTimeout\<close> as its cause. If the timeout is positive and
  \<open>gap + timeout\<close> is above the period, the first \<^verbatim>\<open>select\<close> takes the ticker's case and the
  probe is called; a probe that then returns \<^verbatim>\<open>(true, nil)\<close> makes the wait return nil.
\<close>

theorem waitOn_short_timeout:
  "(gap rt + nat to < 1000000000 \<longrightarrow>
      waitOn fn to rt s = (Some (Wrapf ErrWaitTimeout (stack rt)), s, [Deadline]) \<and>
      Cause (Wrapf ErrWaitTimeout (stack rt)) = ErrWaitTimeout) \<and>
   (0 < to \<and> 1000000000 < gap rt + nat to \<longrightarrow>
      (\<exists>h'. snd (snd (waitOn fn to rt s)) = Tick # h') \<and>
      (\<forall>s'. fn s = ((True, None), s') \<longrightarrow> waitOn fn to rt s = (None, s', [Tick])))"
proof (intro conjI impI)
  assume a: "gap rt + nat to < 1000000000"
  then have "select (gap rt + nat to) 0 (gap rt) (races rt) =
               (Deadline, (if nat to = 0 then gap rt else gap rt + nat to), races rt)"
    by (simp add: select_def tick_ready_def period_def)
  then show "waitOn fn to rt s = (Some (Wrapf ErrWaitTimeout (stack rt)), s, [Deadline])"
    by (simp add: waitOn_def waitOn_loop.simps)
  show "Cause (Wrapf ErrWaitTimeout (stack rt)) = ErrWaitTimeout"
    by simp
next
  assume b: "0 < to \<and> 1000000000 < gap rt + nat to"
  define t where "t = (if gap rt < 1000000000 then 1000000000 else gap rt)"
  have sl: "select (gap rt + nat to) 0 (gap rt) (races rt) = (Tick, t, races rt)"
  proof (cases "gap rt < 1000000000")
    case True
    with b show ?thesis
      by (simp add: select_def tick_ready_def period_def t_def)
  next
    case False
    then have "0 < gap rt div 1000000000"
      by (simp add: div_greater_zero_iff)
    with False b show ?thesis
      by (simp add: select_def tick_ready_def period_def t_def)
  qed
  obtain d err s1 where f: "fn s = ((d, err), s1)"
    by (cases "fn s") auto
  show "\<exists>h'. snd (snd (waitOn fn to rt s)) = Tick # h'"
  proof (cases "err = None \<and> \<not> d")
    case True
    from waitOn_loop_history [of fn "cost rt" "stack rt" "gap rt + nat to" t "t + cost rt 0" 1
        "races rt" s1 "[Tick]"]
    obtain h' where "snd (snd (waitOn_loop fn (cost rt) (stack rt) (gap rt + nat to) t
        (t + cost rt 0) 1 (races rt) s1 [Tick])) = [Tick] @ h'"
      by blast
    with True sl f show ?thesis
      by (simp add: waitOn_def waitOn_loop.simps [of fn "cost rt" "stack rt" "gap rt + nat to" 0 "gap rt"])
  next
    case False
    with sl f show ?thesis
      by (cases err; cases d)
         (simp_all add: waitOn_def waitOn_loop.simps [of fn "cost rt" "stack rt" "gap rt + nat to" 0 "gap rt"])
  qed
  show "\<forall>s'. fn s = ((True, None), s') \<longrightarrow> waitOn fn to rt s = (None, s', [Tick])"
    using sl
    by (simp add: waitOn_def waitOn_loop.simps [of fn "cost rt" "stack rt" "gap rt + nat to" 0 "gap rt"])
qed

theorem waitOn_short_timeout_witness:
  "gap rt0 + nat 999000000 < 1000000000 \<and>
   fst (third_time 2) = (True, None) \<and>
   waitOn (\<lambda>s. third_time (s + 2)) 999000000 rt0 0 =
     (Some (Wrapf ErrWaitTimeout ''goroutine 1 [running]:''), 0, [Deadline]) \<and>
   waitOn third_time (- 1) rt0 0 =
     (Some (Wrapf ErrWaitTimeout ''goroutine 1 [running]:''), 0, [Deadline]) \<and>
   (1000000000::nat) < gap rt0 + nat 999999999 \<and>
   waitOn (\<lambda>s. third_time (s + 2)) 999999999 rt0 0 = (None, 3, [Tick])"
  using waitOn_short_timeout [of rt0 999000000 "\<lambda>s. third_time (s + 2)" 0]
        waitOn_short_timeout [of rt0 "- 1" third_time 0]
        waitOn_short_timeout [of rt0 999999999 "\<lambda>s. third_time (s + 2)" 0]
  by (simp add: rt0_def third_time_def)

text \<open>
  C9 as stated fails just below the period: with the timer created 200 nanoseconds after
  the ticker, a timeout of 999999999 nanoseconds is due after the first tick, so the probe
  is called, and as it returns \<^verbatim>\<open>(true, nil)\<close> the wait returns nil, not the timeout error.
\<close>

theorem waitOn_just_below_period_ticks:
  "(999999999::int) < 1000000000 \<and>
   waitOn (\<lambda>s. third_time (s + 2)) 999999999 rt0 0 = (None, 3, [Tick]) \<and>
   fst (waitOn (\<lambda>s. third_time (s + 2)) 999999999 rt0 0) \<noteq>
     Some (Wrapf ErrWaitTimeout (stack rt0))"
  by (simp add: waitOn_def waitOn_loop.simps select_def tick_ready_def period_def race_def
      rt0_def third_time_def)

section \<open>Properties of the session operations\<close>

lemma calls_snoc:
  "calls fn (Suc k) s =
     (case calls fn k s of (ps, sk) \<Rightarrow> (case fn sk of (r, s') \<Rightarrow> (ps @ [r], s')))"
proof (induction k arbitrary: s)
  case 0
  show ?case by (simp split: prod.splits)
next
  case (Suc k)
  obtain r s1 where f: "fn s = (r, s1)" by (cases "fn s")
  have "calls fn (Suc (Suc k)) s = (case calls fn (Suc k) s1 of (rs, s'') \<Rightarrow> (r # rs, s''))"
    using f by simp
  also have "\<dots> = (case calls fn k s1 of (ps, sk) \<Rightarrow> (case fn sk of (r', s') \<Rightarrow> (r # ps @ [r'], s')))"
    by (simp only: Suc.IH) (simp split: prod.splits)
  also have "\<dots> = (case calls fn (Suc k) s of (ps, sk) \<Rightarrow> (case fn sk of (r, s') \<Rightarrow> (ps @ [r], s')))"
    using f by (simp split: prod.splits)
  finally show ?case .
qed

lemma calls_fst_length: "length (fst (calls fn k s)) = k"
  using calls_length [of fn k s] by (cases "calls fn k s") simp

lemma calls_nth:
  "i < k \<Longrightarrow> fst (calls fn k s) ! i = fst (fn (snd (calls fn i s)))"
proof (induction k)
  case 0
  then show ?case by simp
next
  case (Suc k)
  show ?case
  proof (cases "i = k")
    case True
    then show ?thesis
      using calls_fst_length [of fn k s]
      by (simp only: calls_snoc) (simp add: split_beta nth_append)
  next
    case False
    with Suc have "i < k" "fst (calls fn k s) ! i = fst (fn (snd (calls fn i s)))" by simp_all
    then show ?thesis
      using calls_fst_length [of fn k s]
      by (simp only: calls_snoc) (simp add: split_beta nth_append)
  qed
qed

lemma calls_end:
  "snd (calls fn (Suc k) s) = snd (fn (snd (calls fn k s)))"
  by (simp only: calls_snoc) (simp add: split_beta)

lemma calls_proj:
  assumes "\<And>s. proj (snd (fn s)) = snd (g (proj s))"
  shows "proj (snd (calls fn k s)) = snd (calls g k (proj s))"
proof (induction k)
  case 0
  show ?case by simp
next
  case (Suc k)
  then show ?case by (simp only: calls_end assms)
qed

lemma calls_unchanged:
  assumes "\<And>s. fst (fn s) = (False, None) \<Longrightarrow> var (snd (fn s)) = var s"
    and "\<forall>i<k. fst (calls fn k s) ! i = (False, None)"
  shows "var (snd (calls fn k s)) = var s"
  using assms(2)
proof (induction k)
  case 0
  show ?case by simp
next
  case (Suc k)
  have "\<forall>i<k. fst (calls fn k s) ! i = (False, None)"
  proof (intro allI impI)
    fix i assume i: "i < k"
    then have "fst (calls fn k s) ! i = fst (calls fn (Suc k) s) ! i"
      by (simp add: calls_nth del: calls.simps)
    with Suc.prems i show "fst (calls fn k s) ! i = (False, None)" by simp
  qed
  then have ih: "var (snd (calls fn k s)) = var s" by (rule Suc.IH)
  from Suc.prems have "fst (calls fn (Suc k) s) ! k = (False, None)" by blast
  then have "fst (fn (snd (calls fn k s))) = (False, None)"
    by (simp add: calls_nth del: calls.simps)
  then have "var (snd (fn (snd (calls fn k s)))) = var (snd (calls fn k s))" by (rule assms(1))
  with ih show ?case by (simp only: calls_end)
qed

lemma GetDOM_probe_verdict:
  assumes "FindElement (wd s) ByXPATH xpath w = ((elem, err), w1)"
  shows "GetDOM_probe s xpath (ret, w) =
     (if notFound err \<or> err = Some ErrNotFound \<or> (err = None \<and> elem = None)
      then ((False, None), (ret, w1))
      else (case err of
              Some e \<Rightarrow> ((True, Some e), (ret, w1))
            | None \<Rightarrow> ((True, None), (Some \<lparr>el_s = s, el_elem = the elem\<rparr>, w1))))"
  using assms
  by (auto simp: GetDOM_probe_def Session_find_def notFound_def split: option.splits)

lemma GetDOM_probe_world:
  "snd (snd (GetDOM_probe s xpath st)) = snd (FindElement (wd s) ByXPATH xpath (snd st))"
proof -
  obtain ret w where st: "st = (ret, w)" by (cases st)
  obtain elem err w1 where f: "FindElement (wd s) ByXPATH xpath w = ((elem, err), w1)"
    by (cases "FindElement (wd s) ByXPATH xpath w") auto
  show ?thesis
    unfolding st GetDOM_probe_verdict [OF f] using f
    by (simp split: option.splits)
qed

lemma GetDOM_probe_ret:
  "fst (GetDOM_probe s xpath st) \<noteq> (True, None) \<Longrightarrow> fst (snd (GetDOM_probe s xpath st)) = fst st"
proof -
  assume a: "fst (GetDOM_probe s xpath st) \<noteq> (True, None)"
  obtain ret w where st: "st = (ret, w)" by (cases st)
  obtain elem err w1 where f: "FindElement (wd s) ByXPATH xpath w = ((elem, err), w1)"
    by (cases "FindElement (wd s) ByXPATH xpath w") auto
  from a show ?thesis
    unfolding st GetDOM_probe_verdict [OF f]
    by (auto simp: notFound_def split: option.splits if_splits)
qed

text \<open>
  C6, amended. \<^verbatim>\<open>GetDOM\<close> is \<^verbatim>\<open>GetDOMTimeout\<close> with the session's timeout. Whatever
  \<^verbatim>\<open>GetDOMTimeout\<close> returns, it has called \<^verbatim>\<open>FindElement\<close> once per tick, \<open>k\<close> times in all.
  A call that returned an element was the last, and the element is returned with a nil
  error. A call that returned an error which is not a not-found error (its text does not
  contain \<^verbatim>\<open>no such element\<close> and it is not \<^verbatim>\<open>ErrNotFound\<close>) was the last, and that very error
  is returned. After a call that found nothing the wait went on. If the timer's case was
  taken, every call had found nothing, and the error returned is \<^verbatim>\<open>ErrWaitTimeout\<close> wrapped
  with the stack. And if every call found nothing (also when there was no call at all),
  the timer's case was taken: no element is returned and the error is that wrapped
  \<^verbatim>\<open>ErrWaitTimeout\<close>. In no case is the error returned \<^verbatim>\<open>ErrNotFound\<close>.
\<close>

theorem GetDOMTimeout_contract:
  assumes "GetDOMTimeout s xpath to rt w = ((ret, err), w', h)"
  shows "\<exists>k fs. calls (FindElement (wd s) ByXPATH xpath) k w = (fs, w') \<and> length fs = k \<and>
      (h = replicate k Tick \<or> h = replicate k Tick @ [Deadline]) \<and>
      (\<forall>i<k. \<forall>el. fs ! i = (Some el, None) \<longrightarrow>
          Suc i = k \<and> h = replicate k Tick \<and> ret = Some \<lparr>el_s = s, el_elem = el\<rparr> \<and> err = None) \<and>
      (\<forall>i<k. \<forall>x e. fs ! i = (x, Some e) \<and> \<not> Contains (Error e) ''no such element'' \<and> e \<noteq> ErrNotFound \<longrightarrow>
          Suc i = k \<and> h = replicate k Tick \<and> ret = None \<and> err = Some e) \<and>
      (\<forall>i<k. fs ! i = (None, None) \<or>
              (\<exists>x e. fs ! i = (x, Some e) \<and> (Contains (Error e) ''no such element'' \<or> e = ErrNotFound)) \<longrightarrow>
          Suc i < k \<or> h = replicate k Tick @ [Deadline]) \<and>
      (h = replicate k Tick @ [Deadline] \<longrightarrow>
          ret = None \<and> err = Some (Wrapf ErrWaitTimeout (stack rt)) \<and>
          (\<forall>i<k. fs ! i = (None, None) \<or>
              (\<exists>x e. fs ! i = (x, Some e) \<and> (Contains (Error e) ''no such element'' \<or> e = ErrNotFound)))) \<and>
      ((\<forall>i<k. fs ! i = (None, None) \<or>
              (\<exists>x e. fs ! i = (x, Some e) \<and> (Contains (Error e) ''no such element'' \<or> e = ErrNotFound))) \<longrightarrow>
          h = replicate k Tick @ [Deadline] \<and> ret = None \<and>
          err = Some (Wrapf ErrWaitTimeout (stack rt))) \<and>
      err \<noteq> Some ErrNotFound"
proof -
  let ?fn = "GetDOM_probe s xpath"
  let ?g = "FindElement (wd s) ByXPATH xpath"
  let ?nomatch = "\<lambda>f. f = (None, None) \<or>
      (\<exists>x e. f = (x, Some e) \<and> (Contains (Error e) ''no such element'' \<or> e = ErrNotFound))"
  from assms have wo: "waitOn ?fn to rt (None, w) = (err, (ret, w'), h)"
    by (simp add: GetDOMTimeout_def split: prod.splits)
  from waitOn_cases [OF wo] obtain k ps where c: "calls ?fn k (None, w) = (ps, (ret, w'))"
    and len: "length ps = k"
    and alt: "h = replicate k Tick @ [Deadline] \<and> err = Some (Wrapf ErrWaitTimeout (stack rt)) \<and>
        (\<forall>i<k. ps ! i = (False, None))
      \<or>
      0 < k \<and> h = replicate k Tick \<and> (\<forall>i<k - 1. ps ! i = (False, None)) \<and>
        (ps ! (k - 1) = (True, None) \<and> err = None \<or>
         (\<exists>d e. ps ! (k - 1) = (d, Some e) \<and> err = Some e))"
    by blast
  define fs where "fs = fst (calls ?g k w)"
  define st where "st = (\<lambda>i. snd (calls ?fn i (None, w)))"
  have world: "snd (st i) = snd (calls ?g i w)" for i
    using calls_proj [of snd ?fn ?g i "(None, w)"] by (simp add: st_def GetDOM_probe_world)
  have cg: "calls ?g k w = (fs, w')"
    using world [of k] c by (cases "calls ?g k w") (simp add: fs_def st_def)
  have lfs: "length fs = k" using cg by (rule calls_length)
  have ps_nth: "ps ! i = fst (?fn (st i))" if "i < k" for i
    using calls_nth [OF that, of ?fn "(None, w)"] c by (simp add: st_def)
  have fs_nth: "fs ! i = fst (?g (snd (st i)))" if "i < k" for i
    using calls_nth [OF that, of ?g w] by (simp add: fs_def world)
  have verdict: "ps ! i = (if ?nomatch (fs ! i) then (False, None)
                           else case snd (fs ! i) of Some e \<Rightarrow> (True, Some e) | None \<Rightarrow> (True, None))"
    if "i < k" for i
  proof -
    obtain r wi where sti: "st i = (r, wi)" by (cases "st i")
    obtain elem er w1 where f: "?g wi = ((elem, er), w1)" by (cases "?g wi") auto
    from that have "fs ! i = (elem, er)" using fs_nth sti f by simp
    moreover from that have "ps ! i = fst (?fn (r, wi))" using ps_nth sti by simp
    ultimately show ?thesis
      unfolding GetDOM_probe_verdict [OF f]
      by (auto simp: notFound_def split: option.splits)
  qed
  have before: "fst (st j) = None" if "j \<le> k" "\<forall>i<j. ps ! i = (False, None)" for j
  proof -
    have "\<forall>i<j. fst (calls ?fn j (None, w)) ! i = (False, None)"
    proof (intro allI impI)
      fix i assume i: "i < j"
      with that(1) have "i < k" by simp
      from i have "fst (calls ?fn j (None, w)) ! i = fst (?fn (st i))"
        by (simp add: calls_nth st_def del: calls.simps)
      also have "\<dots> = ps ! i" using ps_nth [OF \<open>i < k\<close>] by simp
      finally show "fst (calls ?fn j (None, w)) ! i = (False, None)" using that(2) i by simp
    qed
    then have "fst (snd (calls ?fn j (None, w))) = fst (None, w)"
      by (intro calls_unchanged [where var = fst]) (simp_all add: GetDOM_probe_ret)
    then show ?thesis by (simp add: st_def)
  qed
  have stk: "st k = (ret, w')" using c by (simp add: st_def)
  from alt show ?thesis
  proof
    assume a: "h = replicate k Tick @ [Deadline] \<and> err = Some (Wrapf ErrWaitTimeout (stack rt)) \<and>
        (\<forall>i<k. ps ! i = (False, None))"
    then have allF: "\<forall>i<k. ps ! i = (False, None)" by simp
    have nm: "\<forall>i<k. ?nomatch (fs ! i)"
    proof (intro allI impI)
      fix i assume i: "i < k"
      with allF have "ps ! i = (False, None)" by simp
      with verdict [OF i] show "?nomatch (fs ! i)"
        by (auto split: if_splits option.splits)
    qed
    have r: "ret = None" using before [of k] allF stk by simp
    have no1: "\<forall>i<k. \<forall>el. fs ! i \<noteq> (Some el, None)" using nm by auto
    have no2: "\<forall>i<k. \<forall>x e. \<not> (fs ! i = (x, Some e) \<and> \<not> Contains (Error e) ''no such element'' \<and> e \<noteq> ErrNotFound)"
      using nm by auto
    from a cg lfs r nm no1 no2 show ?thesis
      by (intro exI[of _ k] exI[of _ fs]) simp
  next
    assume b: "0 < k \<and> h = replicate k Tick \<and> (\<forall>i<k - 1. ps ! i = (False, None)) \<and>
        (ps ! (k - 1) = (True, None) \<and> err = None \<or>
         (\<exists>d e. ps ! (k - 1) = (d, Some e) \<and> err = Some e))"
    then have k: "0 < k" and h: "h = replicate k Tick"
      and early: "\<forall>i<k - 1. ps ! i = (False, None)"
      and last: "ps ! (k - 1) = (True, None) \<and> err = None \<or>
         (\<exists>d e. ps ! (k - 1) = (d, Some e) \<and> err = Some e)"
      by simp_all
    have ne: "replicate k Tick \<noteq> replicate k Tick @ [Deadline]" by simp
    have lastF: "ps ! (k - 1) \<noteq> (False, None)" using last by auto
    have pos: "i = k - 1" if "i < k" "ps ! i \<noteq> (False, None)" for i
    proof -
      from early that(2) have "\<not> i < k - 1" by auto
      with that(1) show ?thesis by simp
    qed
    have r0: "fst (st (k - 1)) = None" using before [of "k - 1"] early by simp
    obtain wl where stl: "st (k - 1) = (None, wl)" using r0 by (cases "st (k - 1)") simp
    obtain elem er w1 where f: "?g wl = ((elem, er), w1)" by (cases "?g wl") auto
    have fl: "fs ! (k - 1) = (elem, er)" using fs_nth [of "k - 1"] k stl f by simp
    have "st k = snd (?fn (st (k - 1)))"
      using calls_end [of ?fn "k - 1" "(None, w)"] k by (simp add: st_def del: calls.simps)
    with stk stl have fin: "snd (?fn (None, wl)) = (ret, w')" by simp
    have pl: "ps ! (k - 1) = fst (?fn (None, wl))" using ps_nth [of "k - 1"] k stl by simp
    have 1: "\<forall>i<k. \<forall>el. fs ! i = (Some el, None) \<longrightarrow>
          Suc i = k \<and> h = replicate k Tick \<and> ret = Some \<lparr>el_s = s, el_elem = el\<rparr> \<and> err = None"
    proof (intro allI impI)
      fix i el assume i: "i < k" "fs ! i = (Some el, None)"
      with verdict [OF i(1)] have p: "ps ! i = (True, None)" by simp
      with i have ik: "i = k - 1" by (intro pos) simp_all
      with i fl have "elem = Some el" "er = None" by simp_all
      with fin have "ret = Some \<lparr>el_s = s, el_elem = el\<rparr>"
        unfolding GetDOM_probe_verdict [OF f] by (simp add: notFound_def)
      moreover from p ik last have "err = None" by auto
      ultimately show "Suc i = k \<and> h = replicate k Tick \<and> ret = Some \<lparr>el_s = s, el_elem = el\<rparr> \<and> err = None"
        using ik k h by simp
    qed
    have 2: "\<forall>i<k. \<forall>x e. fs ! i = (x, Some e) \<and> \<not> Contains (Error e) ''no such element'' \<and> e \<noteq> ErrNotFound \<longrightarrow>
          Suc i = k \<and> h = replicate k Tick \<and> ret = None \<and> err = Some e"
    proof (intro allI impI)
      fix i x e
      assume i: "i < k" "fs ! i = (x, Some e) \<and> \<not> Contains (Error e) ''no such element'' \<and> e \<noteq> ErrNotFound"
      with verdict [OF i(1)] have p: "ps ! i = (True, Some e)" by simp
      with i have ik: "i = k - 1" by (intro pos) simp_all
      with i fl have "er = Some e" by simp
      with fin i(2) have "ret = None"
        unfolding GetDOM_probe_verdict [OF f] by (simp add: notFound_def)
      moreover from p ik last have "err = Some e" by auto
      ultimately show "Suc i = k \<and> h = replicate k Tick \<and> ret = None \<and> err = Some e"
        using ik k h by simp
    qed
    have 3: "\<forall>i<k. ?nomatch (fs ! i) \<longrightarrow> Suc i < k \<or> h = replicate k Tick @ [Deadline]"
    proof (intro allI impI)
      fix i assume i: "i < k" "?nomatch (fs ! i)"
      with verdict [OF i(1)] have "ps ! i = (False, None)" by simp
      with lastF have "i \<noteq> k - 1" by auto
      with i have "Suc i < k" by linarith
      then show "Suc i < k \<or> h = replicate k Tick @ [Deadline]" ..
    qed
    have 4: "err \<noteq> Some ErrNotFound"
    proof
      assume e: "err = Some ErrNotFound"
      with last obtain d where "ps ! (k - 1) = (d, Some ErrNotFound)" by auto
      with verdict [of "k - 1"] k show False
        by (cases "fs ! (k - 1)") (auto split: if_splits option.splits)
    qed
    have 0: "h = replicate k Tick \<or> h = replicate k Tick @ [Deadline]" using h by simp
    have 5: "h = replicate k Tick @ [Deadline] \<longrightarrow>
          ret = None \<and> err = Some (Wrapf ErrWaitTimeout (stack rt)) \<and>
          (\<forall>i<k. ?nomatch (fs ! i))"
      using h ne by simp
    have 6: "(\<forall>i<k. ?nomatch (fs ! i)) \<longrightarrow>
          h = replicate k Tick @ [Deadline] \<and> ret = None \<and>
          err = Some (Wrapf ErrWaitTimeout (stack rt))"
    proof
      assume "\<forall>i<k. ?nomatch (fs ! i)"
      with k have "?nomatch (fs ! (k - 1))" by simp
      with verdict [of "k - 1"] k have "ps ! (k - 1) = (False, None)" by simp
      with lastF show "h = replicate k Tick @ [Deadline] \<and> ret = None \<and>
          err = Some (Wrapf ErrWaitTimeout (stack rt))"
        by contradiction
    qed
    show ?thesis
      by (rule exI[of _ k], rule exI[of _ fs]) (intro conjI cg lfs 0 1 2 3 5 6 4)
  qed
qed

lemma Session_find_range:
  "fst (Session_find s xpath w) = (None, Some ErrNotFound) \<or>
   (\<exists>e. e \<noteq> ErrNotFound \<and> fst (Session_find s xpath w) = (None, Some e)) \<or>
   (\<exists>el. fst (Session_find s xpath w) = (Some el, None))"
  by (cases "FindElement (wd s) ByXPATH xpath w")
     (auto simp: Session_find_def notFound_def split: option.splits)

lemma Wait_paths_hit:
  "j < length xs \<Longrightarrow> finds s xs w ! j = (Some el, None) \<Longrightarrow>
   \<forall>m<j. finds s xs w ! m = (None, Some ErrNotFound) \<Longrightarrow>
   fst (Wait_paths s xs idx w) = (Some (int (idx + j)), True, None)"
proof (induction xs arbitrary: idx w j)
  case Nil
  then show ?case by simp
next
  case (Cons x xs)
  obtain r er w1 where f: "Session_find s x w = ((r, er), w1)"
    by (cases "Session_find s x w") auto
  show ?case
  proof (cases j)
    case 0
    with Cons.prems f have "r = Some el" "er = None" by simp_all
    with f 0 show ?thesis by simp
  next
    case (Suc j')
    from Cons.prems(3) Suc have "finds s (x # xs) w ! 0 = (None, Some ErrNotFound)" by blast
    with f have r: "r = None" "er = Some ErrNotFound" by simp_all
    have "fst (Wait_paths s xs (idx + 1) w1) = (Some (int (idx + 1 + j')), True, None)"
    proof (rule Cons.IH)
      show "j' < length xs" using Cons.prems(1) Suc by simp
      show "finds s xs w1 ! j' = (Some el, None)" using Cons.prems(2) Suc f by simp
      show "\<forall>m<j'. finds s xs w1 ! m = (None, Some ErrNotFound)"
      proof (intro allI impI)
        fix m assume "m < j'"
        then have "Suc m < j" using Suc by simp
        with Cons.prems(3) have "finds s (x # xs) w ! Suc m = (None, Some ErrNotFound)" by blast
        with f show "finds s xs w1 ! m = (None, Some ErrNotFound)" by simp
      qed
    qed
    with f r Suc show ?thesis by simp
  qed
qed

lemma Wait_paths_selected:
  "fst (Wait_paths s xs idx w) = (Some i, r) \<Longrightarrow>
   r = (True, None) \<and>
   (\<exists>j el. i = int (idx + j) \<and> j < length xs \<and> finds s xs w ! j = (Some el, None) \<and>
      (\<forall>m<j. finds s xs w ! m = (None, Some ErrNotFound)))"
proof (induction xs arbitrary: idx w)
  case Nil
  then show ?case by simp
next
  case (Cons x xs)
  obtain rs er w1 where f: "Session_find s x w = ((rs, er), w1)"
    by (cases "Session_find s x w") auto
  from Session_find_range [of s x w] f
  consider (nf) "rs = None" "er = Some ErrNotFound"
    | (err) e where "rs = None" "er = Some e" "e \<noteq> ErrNotFound"
    | (hit) el where "rs = Some el" "er = None"
    by auto
  then show ?case
  proof cases
    case nf
    with Cons.prems f have "fst (Wait_paths s xs (idx + 1) w1) = (Some i, r)" by simp
    from Cons.IH [OF this] obtain j el where j: "r = (True, None)" "i = int (idx + 1 + j)"
      "j < length xs" "finds s xs w1 ! j = (Some el, None)"
      "\<forall>m<j. finds s xs w1 ! m = (None, Some ErrNotFound)"
      by blast
    have "\<forall>m<Suc j. finds s (x # xs) w ! m = (None, Some ErrNotFound)"
      using j(5) f nf by (auto simp: nth_Cons split: nat.splits)
    with j f show ?thesis
      by (intro conjI exI[of _ "Suc j"] exI[of _ el]) simp_all
  next
    case err
    with Cons.prems f show ?thesis by simp
  next
    case hit
    with Cons.prems f have "i = int idx" "r = (True, None)" by simp_all
    with f hit show ?thesis
      by (intro conjI exI[of _ 0] exI[of _ el]) simp_all
  qed
qed

lemma Wait_paths_unselected:
  "fst (Wait_paths s xs idx w) = (None, r) \<Longrightarrow> r \<noteq> (True, None)"
proof (induction xs arbitrary: idx w)
  case Nil
  then show ?case by auto
next
  case (Cons x xs)
  obtain rs er w1 where f: "Session_find s x w = ((rs, er), w1)"
    by (cases "Session_find s x w") auto
  from Session_find_range [of s x w] f
  consider (nf) "rs = None" "er = Some ErrNotFound"
    | (err) e where "rs = None" "er = Some e" "e \<noteq> ErrNotFound"
    | (hit) el where "rs = Some el" "er = None"
    by auto
  then show ?case
  proof cases
    case nf
    with Cons.prems f have "fst (Wait_paths s xs (idx + 1) w1) = (None, r)" by simp
    then show ?thesis by (rule Cons.IH)
  next
    case err
    with Cons.prems f show ?thesis by auto
  next
    case hit
    with Cons.prems f show ?thesis by simp
  qed
qed

lemma Wait_probe_error:
  "Status (wd s) w = (Inl e, w1) \<Longrightarrow> Wait_probe s xs (sel0, w) = ((True, Some e), (sel0, w1))"
  by (simp add: Wait_probe_def)

lemma Wait_probe_not_ready:
  "Status (wd s) w = (Inr False, w1) \<Longrightarrow> Wait_probe s xs (sel0, w) = ((False, None), (sel0, w1))"
  by (simp add: Wait_probe_def)

lemma Wait_probe_hit:
  assumes "Status (wd s) w = (Inr True, w1)" "j < length xs" "finds s xs w1 ! j = (Some el, None)"
    "\<forall>m<j. finds s xs w1 ! m = (None, Some ErrNotFound)"
  shows "fst (Wait_probe s xs (sel0, w)) = (True, None) \<and> fst (snd (Wait_probe s xs (sel0, w))) = int j"
proof -
  from Wait_paths_hit [OF assms(2,3,4), of 0]
  have "fst (Wait_paths s xs 0 w1) = (Some (int j), True, None)" by simp
  then obtain w2 where "Wait_paths s xs 0 w1 = ((Some (int j), True, None), w2)"
    by (cases "Wait_paths s xs 0 w1") auto
  with assms(1) show ?thesis by (simp add: Wait_probe_def)
qed

lemma Wait_probe_done:
  assumes "fst (Wait_probe s xs (sel0, w)) = (True, None)"
  shows "\<exists>w1 j el. Status (wd s) w = (Inr True, w1) \<and> j < length xs \<and>
           fst (snd (Wait_probe s xs (sel0, w))) = int j \<and>
           finds s xs w1 ! j = (Some el, None) \<and>
           (\<forall>m<j. finds s xs w1 ! m = (None, Some ErrNotFound))"
proof -
  obtain st w1 where s1: "Status (wd s) w = (st, w1)" by (cases "Status (wd s) w")
  show ?thesis
  proof (cases st)
    case (Inl e)
    with assms s1 show ?thesis by (simp add: Wait_probe_def)
  next
    case (Inr ready)
    show ?thesis
    proof (cases ready)
      case False
      with assms s1 Inr show ?thesis by (simp add: Wait_probe_def)
    next
      case True
      obtain sel r w2 where wp: "Wait_paths s xs 0 w1 = ((sel, r), w2)"
        by (cases "Wait_paths s xs 0 w1") auto
      show ?thesis
      proof (cases sel)
        case None
        with wp have "r \<noteq> (True, None)" using Wait_paths_unselected [of s xs 0 w1 r] by simp
        with assms s1 Inr True wp None show ?thesis by (simp add: Wait_probe_def)
      next
        case (Some i)
        with wp have "fst (Wait_paths s xs 0 w1) = (Some i, r)" by simp
        from Wait_paths_selected [OF this] obtain j el where j: "i = int j" "j < length xs"
          "finds s xs w1 ! j = (Some el, None)" "\<forall>m<j. finds s xs w1 ! m = (None, Some ErrNotFound)"
          by auto
        from s1 Inr True wp Some have "fst (snd (Wait_probe s xs (sel0, w))) = i"
          by (simp add: Wait_probe_def)
        with j s1 Inr True show ?thesis
          by (intro exI[of _ w1] exI[of _ j] exI[of _ el]) simp
      qed
    qed
  qed
qed

lemma Wait_probe_selected:
  "fst (Wait_probe s xs st) \<noteq> (True, None) \<Longrightarrow> fst (snd (Wait_probe s xs st)) = fst st"
proof -
  assume a: "fst (Wait_probe s xs st) \<noteq> (True, None)"
  obtain sel0 w where st: "st = (sel0, w)" by (cases st)
  obtain r w1 where s1: "Status (wd s) w = (r, w1)" by (cases "Status (wd s) w")
  obtain sel rr w2 where wp: "Wait_paths s xs 0 w1 = ((sel, rr), w2)"
    by (cases "Wait_paths s xs 0 w1") auto
  show ?thesis
  proof (cases sel)
    case None
    with st s1 wp show ?thesis by (cases r) (simp_all add: Wait_probe_def)
  next
    case (Some i)
    with wp have "rr = (True, None)" using Wait_paths_selected [of s xs 0 w1 i rr] by simp
    with a st s1 wp Some show ?thesis by (cases r) (auto simp: Wait_probe_def)
  qed
qed

text \<open>
  C8. Whatever \<^verbatim>\<open>Session.Wait\<close> returns, there is a number \<open>k\<close> of ticks such that, for the
  remote state before each tick: if the status query fails, this tick is the last and its
  error is returned; if the engine is not ready, the wait goes on (to a further tick or to
  the timer) and no error comes from this tick; if the engine is ready and \<open>j\<close> is the first
  index in list order whose \<^verbatim>\<open>find\<close> returns an element, all paths before it being not found,
  then this tick is the last and the result is \<open>j\<close> with a nil error. Conversely a nil
  error comes only with such an index, found on the last tick; and with an error the
  index returned is \<open>-1\<close>.
\<close>

theorem Session_Wait_contract:
  assumes "Session_Wait s xpaths rt w = ((selected, err), w', h)"
  shows "\<exists>k. (h = replicate k Tick \<or> h = replicate k Tick @ [Deadline]) \<and>
     (\<forall>i<k. \<forall>e w1. Status (wd s) (snd (snd (calls (Wait_probe s xpaths) i (- 1, w)))) = (Inl e, w1) \<longrightarrow>
        Suc i = k \<and> h = replicate k Tick \<and> err = Some e) \<and>
     (\<forall>i<k. \<forall>w1. Status (wd s) (snd (snd (calls (Wait_probe s xpaths) i (- 1, w)))) = (Inr False, w1) \<longrightarrow>
        Suc i < k \<or> h = replicate k Tick @ [Deadline]) \<and>
     (\<forall>i<k. \<forall>w1 j el.
        Status (wd s) (snd (snd (calls (Wait_probe s xpaths) i (- 1, w)))) = (Inr True, w1) \<and>
        j < length xpaths \<and> finds s xpaths w1 ! j = (Some el, None) \<and>
        (\<forall>m<j. finds s xpaths w1 ! m = (None, Some ErrNotFound)) \<longrightarrow>
        Suc i = k \<and> h = replicate k Tick \<and> err = None \<and> selected = int j) \<and>
     (err = None \<longrightarrow>
        0 < k \<and>
        (\<exists>w1 j el.
           Status (wd s) (snd (snd (calls (Wait_probe s xpaths) (k - 1) (- 1, w)))) = (Inr True, w1) \<and>
           j < length xpaths \<and> selected = int j \<and> finds s xpaths w1 ! j = (Some el, None) \<and>
           (\<forall>m<j. finds s xpaths w1 ! m = (None, Some ErrNotFound)))) \<and>
     (err \<noteq> None \<longrightarrow> selected = - 1)"
proof -
  let ?fn = "Wait_probe s xpaths"
  from assms have wo: "waitOn ?fn (timeout s) rt (- 1, w) = (err, (selected, w'), h)"
    by (simp add: Session_Wait_def split: prod.splits)
  from waitOn_cases [OF wo] obtain k ps where c: "calls ?fn k (- 1, w) = (ps, (selected, w'))"
    and len: "length ps = k"
    and alt: "h = replicate k Tick @ [Deadline] \<and> err = Some (Wrapf ErrWaitTimeout (stack rt)) \<and>
        (\<forall>i<k. ps ! i = (False, None))
      \<or>
      0 < k \<and> h = replicate k Tick \<and> (\<forall>i<k - 1. ps ! i = (False, None)) \<and>
        (ps ! (k - 1) = (True, None) \<and> err = None \<or>
         (\<exists>d e. ps ! (k - 1) = (d, Some e) \<and> err = Some e))"
    by blast
  define st where "st = (\<lambda>i. snd (calls ?fn i (- 1, w)))"
  have ps_nth: "ps ! i = fst (?fn (st i))" if "i < k" for i
    using calls_nth [OF that, of ?fn "(- 1, w)"] c by (simp add: st_def)
  have stk: "st k = (selected, w')" using c by (simp add: st_def)
  have step: "st (Suc i) = snd (?fn (st i))" for i
    using calls_end [of ?fn i "(- 1, w)"] by (simp add: st_def del: calls.simps)
  have before: "fst (st j) = - 1" if "j \<le> k" "\<forall>i<j. ps ! i = (False, None)" for j
  proof -
    have "\<forall>i<j. fst (calls ?fn j (- 1, w)) ! i = (False, None)"
    proof (intro allI impI)
      fix i assume i: "i < j"
      with that(1) have "i < k" by simp
      from i have "fst (calls ?fn j (- 1, w)) ! i = fst (?fn (st i))"
        by (simp add: calls_nth st_def del: calls.simps)
      also have "\<dots> = ps ! i" using ps_nth [OF \<open>i < k\<close>] by simp
      finally show "fst (calls ?fn j (- 1, w)) ! i = (False, None)" using that(2) i by simp
    qed
    then have "fst (snd (calls ?fn j (- 1, w))) = fst (- 1 :: int, w)"
      by (intro calls_unchanged [where var = fst]) (simp_all add: Wait_probe_selected)
    then show ?thesis by (simp add: st_def)
  qed
  have p_err: "ps ! i = (True, Some e)"
    if "i < k" "Status (wd s) (snd (st i)) = (Inl e, w1)" for i e w1
    using ps_nth [OF that(1)] Wait_probe_error [OF that(2), of xpaths "fst (st i)"] by simp
  have p_nr: "ps ! i = (False, None)"
    if "i < k" "Status (wd s) (snd (st i)) = (Inr False, w1)" for i w1
    using ps_nth [OF that(1)] Wait_probe_not_ready [OF that(2), of xpaths "fst (st i)"] by simp
  have p_hit: "ps ! i = (True, None) \<and> fst (st (Suc i)) = int j"
    if "i < k" "Status (wd s) (snd (st i)) = (Inr True, w1)" "j < length xpaths"
      "finds s xpaths w1 ! j = (Some el, None)"
      "\<forall>m<j. finds s xpaths w1 ! m = (None, Some ErrNotFound)" for i w1 j el
    using ps_nth [OF that(1)] Wait_probe_hit [OF that(2,3,4,5), of "fst (st i)"] step [of i] by simp
  from alt show ?thesis
  proof
    assume a: "h = replicate k Tick @ [Deadline] \<and> err = Some (Wrapf ErrWaitTimeout (stack rt)) \<and>
        (\<forall>i<k. ps ! i = (False, None))"
    then have allF: "\<forall>i<k. ps ! i = (False, None)" and h: "h = replicate k Tick @ [Deadline]"
      and e: "err = Some (Wrapf ErrWaitTimeout (stack rt))"
      by simp_all
    have 0: "h = replicate k Tick \<or> h = replicate k Tick @ [Deadline]" using h by simp
    have 1: "\<forall>i<k. \<forall>e w1. Status (wd s) (snd (snd (calls ?fn i (- 1, w)))) = (Inl e, w1) \<longrightarrow>
        Suc i = k \<and> h = replicate k Tick \<and> err = Some e"
      using p_err allF by (fastforce simp: st_def)
    have 2: "\<forall>i<k. \<forall>w1. Status (wd s) (snd (snd (calls ?fn i (- 1, w)))) = (Inr False, w1) \<longrightarrow>
        Suc i < k \<or> h = replicate k Tick @ [Deadline]"
      using h by simp
    have 3: "\<forall>i<k. \<forall>w1 j el.
        Status (wd s) (snd (snd (calls ?fn i (- 1, w)))) = (Inr True, w1) \<and>
        j < length xpaths \<and> finds s xpaths w1 ! j = (Some el, None) \<and>
        (\<forall>m<j. finds s xpaths w1 ! m = (None, Some ErrNotFound)) \<longrightarrow>
        Suc i = k \<and> h = replicate k Tick \<and> err = None \<and> selected = int j"
    proof (intro allI impI)
      fix i w1 j el
      assume i: "i < k" and
        b: "Status (wd s) (snd (snd (calls ?fn i (- 1, w)))) = (Inr True, w1) \<and>
            j < length xpaths \<and> finds s xpaths w1 ! j = (Some el, None) \<and>
            (\<forall>m<j. finds s xpaths w1 ! m = (None, Some ErrNotFound))"
      then have "ps ! i = (True, None)" using p_hit [of i w1 j el] by (simp add: st_def)
      with allF i show "Suc i = k \<and> h = replicate k Tick \<and> err = None \<and> selected = int j" by simp
    qed
    have 4: "err = None \<longrightarrow>
        0 < k \<and>
        (\<exists>w1 j el.
           Status (wd s) (snd (snd (calls ?fn (k - 1) (- 1, w)))) = (Inr True, w1) \<and>
           j < length xpaths \<and> selected = int j \<and> finds s xpaths w1 ! j = (Some el, None) \<and>
           (\<forall>m<j. finds s xpaths w1 ! m = (None, Some ErrNotFound)))"
      using e by simp
    have "selected = - 1" using before [of k] allF stk by simp
    then have 5: "err \<noteq> None \<longrightarrow> selected = - 1" by simp
    show ?thesis
      by (rule exI[of _ k]) (intro conjI 0 1 2 3 4 5)
  next
    assume b: "0 < k \<and> h = replicate k Tick \<and> (\<forall>i<k - 1. ps ! i = (False, None)) \<and>
        (ps ! (k - 1) = (True, None) \<and> err = None \<or>
         (\<exists>d e. ps ! (k - 1) = (d, Some e) \<and> err = Some e))"
    then have k: "0 < k" and h: "h = replicate k Tick"
      and early: "\<forall>i<k - 1. ps ! i = (False, None)"
      and last: "ps ! (k - 1) = (True, None) \<and> err = None \<or>
         (\<exists>d e. ps ! (k - 1) = (d, Some e) \<and> err = Some e)"
      by simp_all
    have lastF: "ps ! (k - 1) \<noteq> (False, None)" using last by auto
    have pos: "i = k - 1" if "i < k" "ps ! i \<noteq> (False, None)" for i
    proof -
      from early that(2) have "\<not> i < k - 1" by auto
      with that(1) show ?thesis by simp
    qed
    have sk: "st k = snd (?fn (st (k - 1)))" using step [of "k - 1"] k by simp
    have pl: "ps ! (k - 1) = fst (?fn (st (k - 1)))" using ps_nth [of "k - 1"] k by simp
    have 0: "h = replicate k Tick \<or> h = replicate k Tick @ [Deadline]" using h by simp
    have 1: "\<forall>i<k. \<forall>e w1. Status (wd s) (snd (snd (calls ?fn i (- 1, w)))) = (Inl e, w1) \<longrightarrow>
        Suc i = k \<and> h = replicate k Tick \<and> err = Some e"
    proof (intro allI impI)
      fix i e w1
      assume i: "i < k" and b: "Status (wd s) (snd (snd (calls ?fn i (- 1, w)))) = (Inl e, w1)"
      then have p: "ps ! i = (True, Some e)" using p_err [of i e w1] by (simp add: st_def)
      with i have ik: "i = k - 1" by (intro pos) simp_all
      with p last have "err = Some e" by auto
      with ik k h show "Suc i = k \<and> h = replicate k Tick \<and> err = Some e" by simp
    qed
    have 2: "\<forall>i<k. \<forall>w1. Status (wd s) (snd (snd (calls ?fn i (- 1, w)))) = (Inr False, w1) \<longrightarrow>
        Suc i < k \<or> h = replicate k Tick @ [Deadline]"
    proof (intro allI impI)
      fix i w1
      assume i: "i < k" and b: "Status (wd s) (snd (snd (calls ?fn i (- 1, w)))) = (Inr False, w1)"
      then have "ps ! i = (False, None)" using p_nr [of i w1] by (simp add: st_def)
      with lastF have "i \<noteq> k - 1" by auto
      with i have "Suc i < k" by linarith
      then show "Suc i < k \<or> h = replicate k Tick @ [Deadline]" ..
    qed
    have 3: "\<forall>i<k. \<forall>w1 j el.
        Status (wd s) (snd (snd (calls ?fn i (- 1, w)))) = (Inr True, w1) \<and>
        j < length xpaths \<and> finds s xpaths w1 ! j = (Some el, None) \<and>
        (\<forall>m<j. finds s xpaths w1 ! m = (None, Some ErrNotFound)) \<longrightarrow>
        Suc i = k \<and> h = replicate k Tick \<and> err = None \<and> selected = int j"
    proof (intro allI impI)
      fix i w1 j el
      assume i: "i < k" and
        b: "Status (wd s) (snd (snd (calls ?fn i (- 1, w)))) = (Inr True, w1) \<and>
            j < length xpaths \<and> finds s xpaths w1 ! j = (Some el, None) \<and>
            (\<forall>m<j. finds s xpaths w1 ! m = (None, Some ErrNotFound))"
      then have p: "ps ! i = (True, None)" "fst (st (Suc i)) = int j"
        using p_hit [of i w1 j el] by (simp_all add: st_def)
      with i have ik: "i = k - 1" by (intro pos) simp_all
      with p(1) last have "err = None" by auto
      moreover from ik k p(2) stk have "selected = int j" by simp
      ultimately show "Suc i = k \<and> h = replicate k Tick \<and> err = None \<and> selected = int j"
        using ik k h by simp
    qed
    have 4: "err = None \<longrightarrow>
        0 < k \<and>
        (\<exists>w1 j el.
           Status (wd s) (snd (snd (calls ?fn (k - 1) (- 1, w)))) = (Inr True, w1) \<and>
           j < length xpaths \<and> selected = int j \<and> finds s xpaths w1 ! j = (Some el, None) \<and>
           (\<forall>m<j. finds s xpaths w1 ! m = (None, Some ErrNotFound)))"
    proof
      assume "err = None"
      with last have "ps ! (k - 1) = (True, None)" by auto
      with pl have "fst (?fn (fst (st (k - 1)), snd (st (k - 1)))) = (True, None)" by simp
      from Wait_probe_done [OF this] obtain w1 j el where
        d: "Status (wd s) (snd (st (k - 1))) = (Inr True, w1)" "j < length xpaths"
          "fst (snd (?fn (fst (st (k - 1)), snd (st (k - 1))))) = int j"
          "finds s xpaths w1 ! j = (Some el, None)"
          "\<forall>m<j. finds s xpaths w1 ! m = (None, Some ErrNotFound)"
        by blast
      from sk stk have "fst (snd (?fn (st (k - 1)))) = selected" by (metis fst_conv)
      with d(3) have "selected = int j" by simp
      with d k show "0 < k \<and>
        (\<exists>w1 j el.
           Status (wd s) (snd (snd (calls ?fn (k - 1) (- 1, w)))) = (Inr True, w1) \<and>
           j < length xpaths \<and> selected = int j \<and> finds s xpaths w1 ! j = (Some el, None) \<and>
           (\<forall>m<j. finds s xpaths w1 ! m = (None, Some ErrNotFound)))"
        unfolding st_def by blast
    qed
    have 5: "err \<noteq> None \<longrightarrow> selected = - 1"
    proof
      assume "err \<noteq> None"
      with last have "ps ! (k - 1) \<noteq> (True, None)" by auto
      with pl have "fst (snd (?fn (st (k - 1)))) = fst (st (k - 1))"
        by (intro Wait_probe_selected) simp
      moreover have "fst (st (k - 1)) = - 1" using before [of "k - 1"] early by simp
      moreover from sk stk have "fst (snd (?fn (st (k - 1)))) = selected" by (metis fst_conv)
      ultimately show "selected = - 1" by simp
    qed
    show ?thesis
      by (rule exI[of _ k]) (intro conjI 0 1 2 3 4 5)
  qed
qed

lemmas eval_wait = waitOn_def waitOn_loop.simps select_def tick_ready_def period_def race_def
  rt0_def s_sample_def wd_sample_def

lemma GetDOM_sample_b:
  "GetDOM s_sample ''//b'' rt0 0 =
     ((Some \<lparr>el_s = s_sample, el_elem = 7\<rparr>, None), 4, [Tick, Tick, Tick, Tick])"
  by (simp add: GetDOM_def GetDOMTimeout_def GetDOM_probe_def Session_find_def notFound_def eval_wait)

lemma GetDOM_sample_zzz:
  "GetDOM s_sample ''//zzz'' rt0 0 =
     ((None, Some (Wrapf ErrWaitTimeout ''goroutine 1 [running]:'')), 5,
      [Tick, Tick, Tick, Tick, Tick, Deadline])"
  by (simp add: GetDOM_def GetDOMTimeout_def GetDOM_probe_def Session_find_def notFound_def eval_wait)

lemma GetDOM_sample_bad:
  "GetDOM s_sample ''//bad'' rt0 0 = ((None, Some (External ''invalid selector'')), 1, [Tick])"
  by (simp add: GetDOM_def GetDOMTimeout_def GetDOM_probe_def Session_find_def notFound_def eval_wait)

lemma Session_Wait_sample:
  "Session_Wait s_sample [''//a'', ''//b'', ''//c''] rt0 0 = ((1, None), 4, [Tick, Tick])"
  by (simp add: Session_Wait_def Wait_probe_def Session_find_def notFound_def eval_wait)

lemma Session_Wait_flaky:
  "Session_Wait s_flaky [''//a'', ''//b'', ''//c''] rt0 0 =
     ((- 1, Some (External ''chrome not reachable'')), 2, [Tick, Tick])"
  by (simp add: Session_Wait_def Wait_probe_def Session_find_def notFound_def eval_wait s_flaky_def)


lemma GetDOMTimeout_samples:
  "GetDOMTimeout s_sample ''//b'' 5500000000 rt0 0 =
     ((Some \<lparr>el_s = s_sample, el_elem = 7\<rparr>, None), 4, [Tick, Tick, Tick, Tick])"
  "GetDOMTimeout s_sample ''//zzz'' 5500000000 rt0 0 =
     ((None, Some (Wrapf ErrWaitTimeout ''goroutine 1 [running]:'')), 5,
      [Tick, Tick, Tick, Tick, Tick, Deadline])"
  "GetDOMTimeout s_sample ''//bad'' 5500000000 rt0 0 =
     ((None, Some (External ''invalid selector'')), 1, [Tick])"
  using GetDOM_sample_b GetDOM_sample_zzz GetDOM_sample_bad
  by (simp_all add: GetDOM_def s_sample_def)

lemma GetDOMTimeout_sample_short:
  "GetDOMTimeout s_sample ''//b'' 500000000 rt0 0 =
     ((None, Some (Wrapf ErrWaitTimeout ''goroutine 1 [running]:'')), 0, [Deadline])"
  by (simp add: GetDOMTimeout_def GetDOM_probe_def Session_find_def notFound_def eval_wait)

lemma calls_sample:
  "calls (FindElement (wd s_sample) ByXPATH ''//b'') 4 0 =
     ([(None, Some (External ''no such element: Unable to locate element'')),
       (None, Some (External ''no such element: Unable to locate element'')),
       (None, Some (External ''no such element: Unable to locate element'')),
       (Some 7, None)], 4)"
  "calls (FindElement (wd s_sample) ByXPATH ''//zzz'') 5 0 =
     (replicate 5 (None, Some (External ''no such element: Unable to locate element'')), 5)"
  "calls (FindElement (wd s_sample) ByXPATH ''//bad'') 1 0 =
     ([(None, Some (External ''invalid selector''))], 1)"
  by (simp_all add: eval_nat_numeral s_sample_def wd_sample_def)

theorem GetDOMTimeout_contract_witness:
  "GetDOMTimeout s_sample ''//b'' 5500000000 rt0 0 =
     ((Some \<lparr>el_s = s_sample, el_elem = 7\<rparr>, None), 4, [Tick, Tick, Tick, Tick]) \<and>
   (\<exists>k fs. calls (FindElement (wd s_sample) ByXPATH ''//b'') k 0 = (fs, 4) \<and> length fs = k) \<and>
   fst (calls (FindElement (wd s_sample) ByXPATH ''//b'') 4 0) ! 3 = (Some 7, None) \<and>
   GetDOMTimeout s_sample ''//bad'' 5500000000 rt0 0 =
     ((None, Some (External ''invalid selector'')), 1, [Tick]) \<and>
   (\<exists>k fs. calls (FindElement (wd s_sample) ByXPATH ''//bad'') k 0 = (fs, 1) \<and> length fs = k) \<and>
   fst (calls (FindElement (wd s_sample) ByXPATH ''//bad'') 1 0) ! 0 =
     (None, Some (External ''invalid selector'')) \<and>
   GetDOMTimeout s_sample ''//zzz'' 5500000000 rt0 0 =
     ((None, Some (Wrapf ErrWaitTimeout ''goroutine 1 [running]:'')), 5,
      [Tick, Tick, Tick, Tick, Tick, Deadline]) \<and>
   (\<exists>k fs. calls (FindElement (wd s_sample) ByXPATH ''//zzz'') k 0 = (fs, 5) \<and> length fs = k) \<and>
   GetDOMTimeout s_sample ''//b'' 500000000 rt0 0 =
     ((None, Some (Wrapf ErrWaitTimeout ''goroutine 1 [running]:'')), 0, [Deadline]) \<and>
   (\<exists>k fs. calls (FindElement (wd s_sample) ByXPATH ''//b'') k 0 = (fs, 0) \<and> length fs = k)"
proof -
  from GetDOMTimeout_contract [OF GetDOMTimeout_sample_short]
  have 5: "\<exists>k fs. calls (FindElement (wd s_sample) ByXPATH ''//b'') k 0 = (fs, 0) \<and> length fs = k"
    by (elim exE conjE) (intro exI conjI)
  from GetDOMTimeout_contract [OF GetDOMTimeout_samples(1)]
  have 1: "\<exists>k fs. calls (FindElement (wd s_sample) ByXPATH ''//b'') k 0 = (fs, 4) \<and> length fs = k"
    by (elim exE conjE) (intro exI conjI)
  from GetDOMTimeout_contract [OF GetDOMTimeout_samples(3)]
  have 2: "\<exists>k fs. calls (FindElement (wd s_sample) ByXPATH ''//bad'') k 0 = (fs, 1) \<and> length fs = k"
    by (elim exE conjE) (intro exI conjI)
  from GetDOMTimeout_contract [OF GetDOMTimeout_samples(2)]
  have 3: "\<exists>k fs. calls (FindElement (wd s_sample) ByXPATH ''//zzz'') k 0 = (fs, 5) \<and> length fs = k"
    by (elim exE conjE) (intro exI conjI)
  have 4: "fst (calls (FindElement (wd s_sample) ByXPATH ''//b'') 4 0) ! 3 = (Some 7, None)"
    "fst (calls (FindElement (wd s_sample) ByXPATH ''//bad'') 1 0) ! 0 =
       (None, Some (External ''invalid selector''))"
    by (simp_all add: eval_nat_numeral s_sample_def wd_sample_def)
  show ?thesis
    by (intro conjI GetDOMTimeout_samples 1 2 3 4 GetDOMTimeout_sample_short 5)
qed

text \<open>
  C6 as stated fails: for a path that the remote side answers with its not-found error on
  each of the five ticks before the timeout of 5.5 seconds, \<^verbatim>\<open>GetDOM\<close> returns the wrapped
  \<^verbatim>\<open>ErrWaitTimeout\<close>, not \<^verbatim>\<open>ErrNotFound\<close>.
\<close>

theorem GetDOM_missing_path_times_out:
  "GetDOM s_sample ''//zzz'' rt0 0 =
     ((None, Some (Wrapf ErrWaitTimeout ''goroutine 1 [running]:'')), 5,
      [Tick, Tick, Tick, Tick, Tick, Deadline]) \<and>
   fst (calls (FindElement (wd s_sample) ByXPATH ''//zzz'') 5 0) =
     replicate 5 (None, Some (External ''no such element: Unable to locate element'')) \<and>
   Wrapf ErrWaitTimeout ''goroutine 1 [running]:'' \<noteq> ErrNotFound \<and>
   Cause (Wrapf ErrWaitTimeout ''goroutine 1 [running]:'') = ErrWaitTimeout"
  by (simp add: GetDOM_sample_zzz calls_sample del: calls.simps)

theorem Session_Wait_contract_witness:
  "Session_Wait s_sample [''//a'', ''//b'', ''//c''] rt0 0 = ((1, None), 4, [Tick, Tick]) \<and>
   (\<exists>w1 j el. j < length [''//a'', ''//b'', ''//c''] \<and> (1::int) = int j \<and>
      finds s_sample [''//a'', ''//b'', ''//c''] w1 ! j = (Some el, None) \<and>
      (\<forall>m<j. finds s_sample [''//a'', ''//b'', ''//c''] w1 ! m = (None, Some ErrNotFound))) \<and>
   finds s_sample [''//a'', ''//b'', ''//c''] 2 =
     [(None, Some ErrNotFound), (Some \<lparr>el_s = s_sample, el_elem = 7\<rparr>, None),
      (Some \<lparr>el_s = s_sample, el_elem = 9\<rparr>, None)] \<and>
   Session_Wait s_flaky [''//a'', ''//b'', ''//c''] rt0 0 =
     ((- 1, Some (External ''chrome not reachable'')), 2, [Tick, Tick]) \<and>
   (\<exists>k. [Tick, Tick] = replicate k Tick \<or> [Tick, Tick] = replicate k Tick @ [Deadline])"
proof -
  from Session_Wait_contract [OF Session_Wait_flaky]
  have c: "\<exists>k. [Tick, Tick] = replicate k Tick \<or> [Tick, Tick] = replicate k Tick @ [Deadline]"
    by (elim exE conjE) (intro exI)
  from Session_Wait_contract [OF Session_Wait_sample]
  obtain k where "None = (None :: error option) \<longrightarrow> 0 < k \<and>
        (\<exists>w1 j el.
           Status (wd s_sample) (snd (snd (calls (Wait_probe s_sample [''//a'', ''//b'', ''//c'']) (k - 1) (- 1, 0)))) = (Inr True, w1) \<and>
           j < length [''//a'', ''//b'', ''//c''] \<and> 1 = int j \<and>
           finds s_sample [''//a'', ''//b'', ''//c''] w1 ! j = (Some el, None) \<and>
           (\<forall>m<j. finds s_sample [''//a'', ''//b'', ''//c''] w1 ! m = (None, Some ErrNotFound)))"
    by (elim exE conjE) (rule that)
  then obtain w1 j el where "j < length [''//a'', ''//b'', ''//c'']" "(1::int) = int j"
      "finds s_sample [''//a'', ''//b'', ''//c''] w1 ! j = (Some el, None)"
      "\<forall>m<j. finds s_sample [''//a'', ''//b'', ''//c''] w1 ! m = (None, Some ErrNotFound)"
    by auto
  then have a: "\<exists>w1 j el. j < length [''//a'', ''//b'', ''//c''] \<and> (1::int) = int j \<and>
      finds s_sample [''//a'', ''//b'', ''//c''] w1 ! j = (Some el, None) \<and>
      (\<forall>m<j. finds s_sample [''//a'', ''//b'', ''//c''] w1 ! m = (None, Some ErrNotFound))"
    by (intro exI conjI)
  have b: "finds s_sample [''//a'', ''//b'', ''//c''] 2 =
     [(None, Some ErrNotFound), (Some \<lparr>el_s = s_sample, el_elem = 7\<rparr>, None),
      (Some \<lparr>el_s = s_sample, el_elem = 9\<rparr>, None)]"
    by (simp add: Session_find_def notFound_def s_sample_def wd_sample_def)
  show ?thesis
    by (intro conjI Session_Wait_sample a b Session_Wait_flaky c)
qed

end
